theory Spec2Isabelle
  imports Complex_Main "HOL-Library.Word"
begin

section \<open>JavaScript strings\<close>

text \<open>
  A JavaScript string is a sequence of UTF-16 code units. The regular expressions of
  \<^verbatim>\<open>extract2md\<close> carry no \<^verbatim>\<open>u\<close> flag, so they too work on code units.
  \<open>js\<close> reads an ASCII literal as such a string.
\<close>

type_synonym jschar = "16 word"
type_synonym jsstring = "jschar list"

definition js :: "string \<Rightarrow> jsstring" where
  "js s = map of_char s"

definition LF :: jschar where
  "LF = 0x0A"

text \<open>
  The class \<^verbatim>\<open>\s\<close> of a JavaScript regular expression: ECMAScript's WhiteSpace and
  LineTerminator code points. \<^verbatim>\<open>String.prototype.trim\<close>, \<^verbatim>\<open>trimEnd\<close> strip the same set.
\<close>

definition isSpaceClass :: "jschar \<Rightarrow> bool" where
  "isSpaceClass c =
     (c = 0x09 \<or> c = 0x0A \<or> c = 0x0B \<or> c = 0x0C \<or> c = 0x0D \<or> c = 0x20 \<or> c = 0xA0 \<or>
      c = 0x1680 \<or> (0x2000 \<le> c \<and> c \<le> 0x200A) \<or> c = 0x2028 \<or> c = 0x2029 \<or>
      c = 0x202F \<or> c = 0x205F \<or> c = 0x3000 \<or> c = 0xFEFF)"

definition isUpperAZ :: "jschar \<Rightarrow> bool" where
  "isUpperAZ c = (0x41 \<le> c \<and> c \<le> 0x5A)"

definition isLowerAZ :: "jschar \<Rightarrow> bool" where
  "isLowerAZ c = (0x61 \<le> c \<and> c \<le> 0x7A)"

definition isDigitClass :: "jschar \<Rightarrow> bool" where
  "isDigitClass c = (0x30 \<le> c \<and> c \<le> 0x39)"

text \<open>\<^verbatim>\<open>\w\<close> is \<^verbatim>\<open>[A-Za-z0-9_]\<close>, and \<^verbatim>\<open>\W\<close> its complement.\<close>

definition isWordClass :: "jschar \<Rightarrow> bool" where
  "isWordClass c = (isUpperAZ c \<or> isLowerAZ c \<or> isDigitClass c \<or> c = 0x5F)"

definition trimStart :: "jsstring \<Rightarrow> jsstring" where
  "trimStart s = dropWhile isSpaceClass s"

definition trimEnd :: "jsstring \<Rightarrow> jsstring" where
  "trimEnd s = rev (dropWhile isSpaceClass (rev s))"

definition trim :: "jsstring \<Rightarrow> jsstring" where
  "trim s = trimEnd (trimStart s)"

text \<open>\<^verbatim>\<open>Array.prototype.join\<close> on an array of strings.\<close>

fun join :: "jsstring \<Rightarrow> jsstring list \<Rightarrow> jsstring" where
  "join sep [] = []"
| "join sep [x] = x"
| "join sep (x # y # ys) = x @ sep @ join sep (y # ys)"

section \<open>Regular expressions and \<^verbatim>\<open>String.prototype.replace\<close>\<close>

text \<open>
  The patterns of the post-processing rules are concatenations of character classes, each
  taken once or repeated greedily (\<^verbatim>\<open>+\<close> is \<open>AtLeast 1\<close>, \<^verbatim>\<open>{3,}\<close> is \<open>AtLeast 3\<close>),
  with capture groups around runs of consecutive classes. A \<open>regexp\<close> is such a pattern:
  its classes in order, its capture groups as (index of the first class, number of
  classes), and the \<^verbatim>\<open>g\<close> flag.
\<close>

datatype quantifier = Once | AtLeast nat

datatype atom = Atom "jschar \<Rightarrow> bool" quantifier

record regexp =
  atoms :: "atom list"
  groups :: "(nat \<times> nat) list"
  global :: bool

text \<open>
  The backtracking matcher. \<open>matchRep cls n k s\<close> takes the longest run of \<open>cls\<close> at the
  head of \<open>s\<close> after which the continuation \<open>k\<close> succeeds, and gives up runs shorter than
  \<open>n\<close>. \<open>matchAtoms\<close> returns the text each class consumed and the rest of the input.
\<close>

fun matchRep :: "(jschar \<Rightarrow> bool) \<Rightarrow> nat \<Rightarrow> (jsstring \<Rightarrow> 'a option) \<Rightarrow> jsstring \<Rightarrow>
    (jsstring \<times> 'a) option" where
  "matchRep cls n k [] = (if n = 0 then map_option (Pair []) (k []) else None)"
| "matchRep cls n k (c # cs) =
     (if cls c then
        (case matchRep cls (n - 1) k cs of
           Some (w, r) \<Rightarrow> Some (c # w, r)
         | None \<Rightarrow> if n = 0 then map_option (Pair []) (k (c # cs)) else None)
      else if n = 0 then map_option (Pair []) (k (c # cs)) else None)"

primrec matchAtoms :: "atom list \<Rightarrow> jsstring \<Rightarrow> (jsstring list \<times> jsstring) option" where
  "matchAtoms [] = (\<lambda>s. Some ([], s))"
| "matchAtoms (a # as) =
     (case a of
        Atom cls Once \<Rightarrow>
          (\<lambda>s. case s of
                 [] \<Rightarrow> None
               | c # cs \<Rightarrow>
                   if cls c then map_option (\<lambda>(ws, r). ([c] # ws, r)) (matchAtoms as cs)
                   else None)
      | Atom cls (AtLeast n) \<Rightarrow>
          (\<lambda>s. map_option (\<lambda>(w, ws, r). (w # ws, r)) (matchRep cls n (matchAtoms as) s)))"

definition capture :: "jsstring list \<Rightarrow> nat \<times> nat \<Rightarrow> jsstring" where
  "capture pieces g = concat (take (snd g) (drop (fst g) pieces))"

text \<open>
  ECMAScript's GetSubstitution: \<^verbatim>\<open>$$\<close>, \<^verbatim>\<open>$&\<close>, \<^verbatim>\<open>$`\<close>, \<^verbatim>\<open>$'\<close>, \<^verbatim>\<open>$n\<close> and \<^verbatim>\<open>$nn\<close> in
  the replacement text; a reference to a group the pattern does not have stays as it is
  written.
\<close>

definition digitValue :: "jschar \<Rightarrow> nat" where
  "digitValue c = unat c - 48"

fun getSubstitution :: "jsstring \<Rightarrow> jsstring \<Rightarrow> jsstring \<Rightarrow> jsstring list \<Rightarrow> jsstring \<Rightarrow> jsstring" where
  "getSubstitution matched preceding following caps [] = []"
| "getSubstitution matched preceding following caps [c] = [c]"
| "getSubstitution matched preceding following caps (c # d # t) =
     (if c \<noteq> 0x24 then c # getSubstitution matched preceding following caps (d # t)
      else if d = 0x24 then 0x24 # getSubstitution matched preceding following caps t
      else if d = 0x26 then matched @ getSubstitution matched preceding following caps t
      else if d = 0x60 then preceding @ getSubstitution matched preceding following caps t
      else if d = 0x27 then following @ getSubstitution matched preceding following caps t
      else if isDigitClass d then
        (case t of
           e # t' \<Rightarrow>
             if isDigitClass e \<and> 10 * digitValue d + digitValue e \<le> length caps then
               (if 1 \<le> 10 * digitValue d + digitValue e
                then caps ! (10 * digitValue d + digitValue e - 1)
                       @ getSubstitution matched preceding following caps t'
                else c # d # e # getSubstitution matched preceding following caps t')
             else if 1 \<le> digitValue d \<and> digitValue d \<le> length caps
               then caps ! (digitValue d - 1) @ getSubstitution matched preceding following caps t
               else c # d # getSubstitution matched preceding following caps t
         | [] \<Rightarrow>
             if 1 \<le> digitValue d \<and> digitValue d \<le> length caps
               then caps ! (digitValue d - 1)
               else [c, d])
      else c # getSubstitution matched preceding following caps (d # t))"

lemma matchRep_consumes:
  assumes "\<And>s' r. k s' = Some r \<Longrightarrow> m r \<le> length s'"
  shows "matchRep cls n k s = Some (w, r) \<Longrightarrow> length w + m r \<le> length s"
proof (induction s arbitrary: n w r)
  case Nil
  then show ?case using assms by (fastforce split: if_splits)
next
  case (Cons c cs)
  then show ?case using assms
    by (fastforce split: if_splits option.splits)
qed

lemma matchAtoms_consumes:
  "matchAtoms as s = Some (ws, r) \<Longrightarrow> length (concat ws) + length r \<le> length s"
proof (induction as arbitrary: s ws r)
  case Nil
  then show ?case by simp
next
  case (Cons a as)
  obtain cls q where a: "a = Atom cls q" by (cases a)
  show ?case
  proof (cases q)
    case Once
    with Cons a show ?thesis
      by (fastforce split: list.splits if_splits)
  next
    case (AtLeast n)
    with Cons.prems a obtain w ws' where
      m: "matchRep cls n (matchAtoms as) s = Some (w, ws', r)" and ws: "ws = w # ws'"
      by auto
    have "length w + (length (concat (fst (ws', r))) + length (snd (ws', r))) \<le> length s"
      using Cons.IH
      by (intro matchRep_consumes [where k = "matchAtoms as"
            and m = "\<lambda>p. length (concat (fst p)) + length (snd p)", OF _ m]) auto
    with ws show ?thesis by simp
  qed
qed

text \<open>
  \<^verbatim>\<open>String.prototype.replace\<close> with a regular expression. The scan goes through the text
  from the left; \<open>preceding\<close> is the text already passed. With the \<^verbatim>\<open>g\<close> flag the scan goes
  on behind each match (one code unit further after an empty match); without it the first
  match is the only one replaced.
\<close>

function replaceRegExp :: "regexp \<Rightarrow> jsstring \<Rightarrow> jsstring \<Rightarrow> jsstring \<Rightarrow> jsstring" where
  "replaceRegExp re repl preceding s =
     (case matchAtoms (atoms re) s of
        Some (pieces, rest) \<Rightarrow>
          (if \<not> global re then
             getSubstitution (concat pieces) preceding rest (map (capture pieces) (groups re)) repl
               @ rest
           else if concat pieces = [] then
             (case s of
                [] \<Rightarrow> getSubstitution [] preceding rest (map (capture pieces) (groups re)) repl
              | c # cs \<Rightarrow>
                  getSubstitution [] preceding rest (map (capture pieces) (groups re)) repl
                    @ c # replaceRegExp re repl (preceding @ [c]) cs)
           else
             getSubstitution (concat pieces) preceding rest (map (capture pieces) (groups re)) repl
               @ replaceRegExp re repl (preceding @ concat pieces) rest)
      | None \<Rightarrow>
          (case s of
             [] \<Rightarrow> []
           | c # cs \<Rightarrow> c # replaceRegExp re repl (preceding @ [c]) cs))"
  by pat_completeness auto
termination
proof (relation "measure (\<lambda>(re, repl, preceding, s). length s)")
  show "wf (measure (\<lambda>(re, repl, preceding, s). length s))" by simp
next
  fix re :: regexp and repl preceding s :: jsstring and x2 x1 x2a
  assume m: "matchAtoms (atoms re) s = Some x2" "(x1, x2a) = x2" and ne: "concat x1 \<noteq> []"
  from m have "length (concat x1) + length x2a \<le> length s"
    using matchAtoms_consumes [of "atoms re" s x1 x2a] by simp
  moreover from ne have "0 < length (concat x1)"
    by (simp only: length_greater_0_conv not_False_eq_True)
  ultimately have "length x2a < length s"
    by linarith
  then show "((re, repl, preceding @ concat x1, x2a), re, repl, preceding, s)
      \<in> measure (\<lambda>(re, repl, preceding, s). length s)"
    by simp
qed auto

declare replaceRegExp.simps [simp del]

text \<open>
  \<^verbatim>\<open>String.prototype.replace\<close> with a string to search for: the first occurrence alone is
  replaced, and the replacement text has no groups to refer to.
\<close>

fun replaceString :: "jsstring \<Rightarrow> jsstring \<Rightarrow> jsstring \<Rightarrow> jsstring \<Rightarrow> jsstring" where
  "replaceString pat repl preceding [] =
     (if pat = [] then getSubstitution [] preceding [] [] repl else [])"
| "replaceString pat repl preceding (c # cs) =
     (if take (length pat) (c # cs) = pat
      then getSubstitution pat preceding (drop (length pat) (c # cs)) [] repl
             @ drop (length pat) (c # cs)
      else c # replaceString pat repl (preceding @ [c]) cs)"

section \<open>The post-processing rules\<close>

text \<open>
  \<^verbatim>\<open>interface PostProcessRule { find: RegExp | string; replace: string; }\<close>. The guard of
  \<^verbatim>\<open>_postProcessText\<close> tests \<^verbatim>\<open>typeof rule.replace === 'string'\<close>, so the model keeps a
  value for a replacement that is not a string.
\<close>

datatype find_value = FindRegExp regexp | FindString jsstring

datatype replace_value = ReplaceString jsstring | ReplaceNotAString

record PostProcessRule =
  rule_find :: find_value
  rule_replace :: replace_value

definition charRule :: "(jschar \<Rightarrow> bool) \<Rightarrow> string \<Rightarrow> PostProcessRule" where
  "charRule cls r =
     \<lparr>rule_find = FindRegExp \<lparr>atoms = [Atom cls Once], groups = [], global = True\<rparr>,
      rule_replace = ReplaceString (js r)\<rparr>"

definition isBullet :: "jschar \<Rightarrow> bool" where
  "isBullet c =
     (c = 0x2022 \<or> c = 0x2023 \<or> c = 0x25E6 \<or> c = 0x2043 \<or> c = 0x2219 \<or> c = 0x25CF \<or>
      c = 0x25CB \<or> c = 0x2981 \<or> c = 0x2619 \<or> c = 0x2765)"

definition isWhitespaceRuleClass :: "jschar \<Rightarrow> bool" where
  "isWhitespaceRuleClass c =
     (isSpaceClass c \<or> c = 0xA0 \<or> (0x2000 \<le> c \<and> c \<le> 0x200A) \<or> c = 0x202F \<or>
      c = 0x205F \<or> c = 0x3000)"

definition whitespaceRule :: PostProcessRule where
  "whitespaceRule =
     \<lparr>rule_find = FindRegExp
        \<lparr>atoms = [Atom isWhitespaceRuleClass (AtLeast 1)], groups = [], global = True\<rparr>,
      rule_replace = ReplaceString (js '' '')\<rparr>"

definition builtinRules :: "PostProcessRule list" where
  "builtinRules =
     [charRule (\<lambda>c. c = 0xFB00) ''ff'',
      charRule (\<lambda>c. c = 0xFB01) ''fi'',
      charRule (\<lambda>c. c = 0xFB02) ''fl'',
      charRule (\<lambda>c. c = 0xFB03) ''ffi'',
      charRule (\<lambda>c. c = 0xFB04) ''ffl'',
      charRule (\<lambda>c. c = 0x2018 \<or> c = 0x2019) [CHR 0x27],
      charRule (\<lambda>c. c = 0x201C \<or> c = 0x201D) [CHR 0x22],
      charRule isBullet ''-'',
      charRule (\<lambda>c. c = 0x2013 \<or> c = 0x2014) ''-'',
      charRule (\<lambda>c. c = 0xAD) '''',
      whitespaceRule]"

text \<open>The three rules pushed when \<^verbatim>\<open>splitPascalCase\<close> is set.\<close>

definition pascalPairRule :: PostProcessRule where
  "pascalPairRule =
     \<lparr>rule_find = FindRegExp
        \<lparr>atoms = [Atom isUpperAZ Once, Atom isLowerAZ (AtLeast 1),
                  Atom isUpperAZ Once, Atom isLowerAZ (AtLeast 1)],
         groups = [(0, 2), (2, 2)], global = True\<rparr>,
      rule_replace = ReplaceString (js ''$1 $2'')\<rparr>"

definition camelRule :: PostProcessRule where
  "camelRule =
     \<lparr>rule_find = FindRegExp
        \<lparr>atoms = [Atom isLowerAZ Once, Atom isUpperAZ Once, Atom isLowerAZ (AtLeast 1)],
         groups = [(0, 1), (1, 2)], global = True\<rparr>,
      rule_replace = ReplaceString (js ''$1 $2'')\<rparr>"

definition splitPascalCaseRules :: "PostProcessRule list" where
  "splitPascalCaseRules = [pascalPairRule, camelRule, pascalPairRule]"


section \<open>The converter and \<^verbatim>\<open>_postProcessText\<close>\<close>

text \<open>
  The engine instance that \<^verbatim>\<open>chatModule\<close> holds is an object of the WebLLM library. The
  code reads its \<^verbatim>\<open>modelId\<close> and \<^verbatim>\<open>config.model_id\<close> and probes which methods it
  has; \<open>engineId\<close> tells one instance from another.
\<close>

record chat_module =
  engineId :: nat
  modelId :: "jsstring option"
  config_model_id :: "jsstring option"
  hasUnload :: bool
  hasReload :: bool
  hasChatCompletions :: bool
  hasGenerate :: bool

record Extract2MDOptions =
  opt_tesseractLanguage :: "jsstring option"
  opt_splitPascalCase :: "bool option"
  opt_postProcessRules :: "PostProcessRule list option"
  opt_llmModel :: "jsstring option"
  opt_llmModelLibUrl :: "jsstring option"

record Extract2MDConverter =
  tesseractLanguage :: jsstring
  splitPascalCase :: bool
  defaultPostProcessRules :: "PostProcessRule list"
  customPostProcessRules :: "PostProcessRule list"
  llmModel :: jsstring
  llmModelLibUrl :: "jsstring option"
  chatModule :: "chat_module option"
  llmInitialized :: bool
  WebLLMCreateEngine :: bool
  WebLLMChatConstructor :: bool

definition DEFAULT_LLM_MODEL :: jsstring where
  "DEFAULT_LLM_MODEL = js ''Qwen3-0.6B-q4f16_1-MLC''"

text \<open>\<^verbatim>\<open>x || d\<close> on an optional string: the empty string is falsy as well.\<close>

definition orDefault :: "jsstring option \<Rightarrow> jsstring \<Rightarrow> jsstring" where
  "orDefault x d = (case x of None \<Rightarrow> d | Some v \<Rightarrow> if v = [] then d else v)"

text \<open>
  The constructor. Whether the WebLLM module offers \<^verbatim>\<open>CreateMLCEngine\<close> and \<^verbatim>\<open>Chat\<close> is
  a fact of the page the library runs in: the two flags are parameters.
\<close>

definition newConverter :: "bool \<Rightarrow> bool \<Rightarrow> Extract2MDOptions \<Rightarrow> Extract2MDConverter" where
  "newConverter createEngineLoaded chatLoaded options =
     \<lparr>tesseractLanguage = orDefault (opt_tesseractLanguage options) (js ''eng''),
      splitPascalCase = (case opt_splitPascalCase options of None \<Rightarrow> False | Some b \<Rightarrow> b),
      defaultPostProcessRules =
        (if (case opt_splitPascalCase options of None \<Rightarrow> False | Some b \<Rightarrow> b)
         then builtinRules @ splitPascalCaseRules else builtinRules),
      customPostProcessRules =
        (case opt_postProcessRules options of None \<Rightarrow> [] | Some rs \<Rightarrow> rs),
      llmModel = orDefault (opt_llmModel options) DEFAULT_LLM_MODEL,
      llmModelLibUrl =
        (case opt_llmModelLibUrl options of
           None \<Rightarrow> None
         | Some u \<Rightarrow> if u = [] then None else Some u),
      chatModule = None,
      llmInitialized = False,
      WebLLMCreateEngine = createEngineLoaded,
      WebLLMChatConstructor = chatLoaded\<rparr>"

definition noOptions :: Extract2MDOptions where
  "noOptions =
     \<lparr>opt_tesseractLanguage = None, opt_splitPascalCase = None, opt_postProcessRules = None,
      opt_llmModel = None, opt_llmModelLibUrl = None\<rparr>"

text \<open>
  One turn of the loop of \<^verbatim>\<open>_postProcessText\<close>: the guard
  \<^verbatim>\<open>rule.find && typeof rule.replace === 'string'\<close> (an empty search string is falsy),
  then \<^verbatim>\<open>cleanedText.replace(rule.find, rule.replace)\<close>.
\<close>

definition applyRule :: "jsstring \<Rightarrow> PostProcessRule \<Rightarrow> jsstring" where
  "applyRule cleanedText rule =
     (case rule_replace rule of
        ReplaceNotAString \<Rightarrow> cleanedText
      | ReplaceString r \<Rightarrow>
          (case rule_find rule of
             FindString p \<Rightarrow> if p = [] then cleanedText else replaceString p r [] cleanedText
           | FindRegExp re \<Rightarrow> replaceRegExp re r [] cleanedText))"

definition postProcessText :: "Extract2MDConverter \<Rightarrow> jsstring \<Rightarrow> PostProcessRule list \<Rightarrow> jsstring" where
  "postProcessText this text additionalRules =
     (if text = [] then []
      else trim (foldl applyRule text
                  (defaultPostProcessRules this @ customPostProcessRules this @ additionalRules)))"

section \<open>\<^verbatim>\<open>_convertToMarkdownLogic\<close>\<close>

record md_state =
  markdownOutputLines :: "jsstring list"
  currentParagraphCollector :: "jsstring list"
  inPotentialTableBlock :: bool
  potentialTableBlockLines :: "jsstring list"

definition fence :: jsstring where
  "fence = [0x60, 0x60, 0x60]"

text \<open>\<^verbatim>\<open>rawText.split(/\n/)\<close>: the pieces between line feeds; the empty text has one piece.\<close>

fun splitLinesFrom :: "jsstring \<Rightarrow> jsstring \<Rightarrow> jsstring list" where
  "splitLinesFrom cur [] = [cur]"
| "splitLinesFrom cur (c # cs) =
     (if c = LF then cur # splitLinesFrom [] cs else splitLinesFrom (cur @ [c]) cs)"

definition splitLines :: "jsstring \<Rightarrow> jsstring list" where
  "splitLines rawText = splitLinesFrom [] rawText"

definition flushCurrentParagraph :: "md_state \<Rightarrow> md_state" where
  "flushCurrentParagraph st =
     (if length (currentParagraphCollector st) > 0 then
        st\<lparr>markdownOutputLines :=
             markdownOutputLines st @ [trim (join (js '' '') (currentParagraphCollector st)), []],
           currentParagraphCollector := []\<rparr>
      else st)"

definition flushPotentialTableBlock :: "md_state \<Rightarrow> md_state" where
  "flushPotentialTableBlock st =
     (if length (potentialTableBlockLines st) > 0 then
        (if length (potentialTableBlockLines st) \<ge> 2 then
           st\<lparr>markdownOutputLines :=
                markdownOutputLines st @ [fence] @ map trimEnd (potentialTableBlockLines st)
                  @ [fence] @ [[]],
              potentialTableBlockLines := []\<rparr>
         else
           st\<lparr>markdownOutputLines :=
                markdownOutputLines st @ [trim (join (js '' '') (potentialTableBlockLines st))]
                  @ [[]],
              potentialTableBlockLines := []\<rparr>)
      else st)
     \<lparr>inPotentialTableBlock := False\<rparr>"

text \<open>The tests on a line. \<^verbatim>\<open>/[.,;:!?]$/\<close>: the last code unit is one of the six.\<close>

definition isSentencePunctuation :: "jschar \<Rightarrow> bool" where
  "isSentencePunctuation c =
     (c = 0x2E \<or> c = 0x2C \<or> c = 0x3B \<or> c = 0x3A \<or> c = 0x21 \<or> c = 0x3F)"

definition endsWithPunctuation :: "jsstring \<Rightarrow> bool" where
  "endsWithPunctuation t = (case rev t of [] \<Rightarrow> False | c # _ \<Rightarrow> isSentencePunctuation c)"

definition isShortLine :: "jsstring \<Rightarrow> bool" where
  "isShortLine trimmedLine = (length trimmedLine > 0 \<and> length trimmedLine < 80)"

definition noPunctuationEnd :: "jsstring \<Rightarrow> bool" where
  "noPunctuationEnd trimmedLine = (isShortLine trimmedLine \<and> \<not> endsWithPunctuation trimmedLine)"

text \<open>
  \<^verbatim>\<open>/^[A-Z\s\d\W]*[A-Z][A-Z\s\d\W]*$/\<close>: every code unit is in the class, and one of them is
  in \<^verbatim>\<open>[A-Z]\<close>, which the class contains. \<^verbatim>\<open>/^\d+$/\<close>: digits only, and at least one.
\<close>

definition isCapsClass :: "jschar \<Rightarrow> bool" where
  "isCapsClass c = (isUpperAZ c \<or> isSpaceClass c \<or> isDigitClass c \<or> \<not> isWordClass c)"

definition matchesCapsPattern :: "jsstring \<Rightarrow> bool" where
  "matchesCapsPattern t = (list_all isCapsClass t \<and> list_ex isUpperAZ t)"

definition isDigitsOnly :: "jsstring \<Rightarrow> bool" where
  "isDigitsOnly t = (t \<noteq> [] \<and> list_all isDigitClass t)"

definition isAllCapsLine :: "jsstring \<Rightarrow> bool" where
  "isAllCapsLine trimmedLine =
     (length trimmedLine > 2 \<and> length trimmedLine < 80 \<and> matchesCapsPattern trimmedLine \<and>
      list_ex isUpperAZ trimmedLine \<and> \<not> isDigitsOnly trimmedLine)"

definition nextLineIsBlankOrEndOfFile :: "jsstring list \<Rightarrow> nat \<Rightarrow> bool" where
  "nextLineIsBlankOrEndOfFile inputLines i =
     (if i + 1 = length inputLines then True else trim (inputLines ! (i + 1)) = [])"

definition isHeadingLine :: "jsstring list \<Rightarrow> nat \<Rightarrow> bool" where
  "isHeadingLine inputLines i =
     (isAllCapsLine (trim (inputLines ! i)) \<or>
      (isShortLine (trim (inputLines ! i)) \<and> noPunctuationEnd (trim (inputLines ! i)) \<and>
       nextLineIsBlankOrEndOfFile inputLines i \<and> length (trim (inputLines ! i)) > 1))"

text \<open>
  \<^verbatim>\<open>regexp.test(s)\<close> for a pattern without anchors: a match at some position.
  \<^verbatim>\<open>/\S\s{2,}\S/\<close> is such a pattern.
\<close>

fun regexpTest :: "atom list \<Rightarrow> jsstring \<Rightarrow> bool" where
  "regexpTest as [] = (matchAtoms as [] \<noteq> None)"
| "regexpTest as (c # cs) = (matchAtoms as (c # cs) \<noteq> None \<or> regexpTest as cs)"

definition hasMultipleSpacesBetweenWords :: "jsstring \<Rightarrow> bool" where
  "hasMultipleSpacesBetweenWords originalLine =
     regexpTest [Atom (\<lambda>c. \<not> isSpaceClass c) Once, Atom isSpaceClass (AtLeast 2),
                 Atom (\<lambda>c. \<not> isSpaceClass c) Once] originalLine"

text \<open>
  \<^verbatim>\<open>s.split(regexp)\<close> for a pattern without groups: \<open>cur\<close> is the piece being read. A
  match that is empty splits between code units and never at the start of a piece.
\<close>

function splitRegExpFrom :: "atom list \<Rightarrow> jsstring \<Rightarrow> jsstring \<Rightarrow> jsstring list" where
  "splitRegExpFrom as cur s =
     (case s of
        [] \<Rightarrow> [cur]
      | c # cs \<Rightarrow>
          (case matchAtoms as s of
             None \<Rightarrow> splitRegExpFrom as (cur @ [c]) cs
           | Some (pieces, rest) \<Rightarrow>
               if concat pieces = [] then
                 (if cur = [] then splitRegExpFrom as [c] cs
                  else cur # splitRegExpFrom as [c] cs)
               else cur # splitRegExpFrom as [] rest))"
  by pat_completeness auto
termination
proof (relation "measure (\<lambda>(as, cur, s). length s)")
  show "wf (measure (\<lambda>(as, cur, s). length s))" by simp
next
  fix as :: "atom list" and cur s :: jsstring and c cs x2 x1 x2a
  assume m: "matchAtoms as s = Some x2" "(x1, x2a) = x2" and ne: "concat x1 \<noteq> []"
  from m have "length (concat x1) + length x2a \<le> length s"
    using matchAtoms_consumes [of as s x1 x2a] by simp
  moreover from ne have "0 < length (concat x1)"
    by (simp only: length_greater_0_conv not_False_eq_True)
  ultimately have "length x2a < length s"
    by linarith
  then show "((as, [], x2a), as, cur, s) \<in> measure (\<lambda>(as, cur, s). length s)"
    by simp
qed auto

declare splitRegExpFrom.simps [simp del]

definition splitRegExp :: "atom list \<Rightarrow> jsstring \<Rightarrow> jsstring list" where
  "splitRegExp as s =
     (if s = [] then (if matchAtoms as [] \<noteq> None then [] else [[]])
      else splitRegExpFrom as [] s)"

definition hasMultipleColumnsBySpaces :: "jsstring \<Rightarrow> bool" where
  "hasMultipleColumnsBySpaces originalLine =
     (length (splitRegExp [Atom isSpaceClass (AtLeast 2)] originalLine) > 2 \<and>
      length originalLine > 10)"

text \<open>
  The body of the \<^verbatim>\<open>for\<close> loop at index \<open>i\<close>. It returns the index as the body leaves it
  (the heading branch may have stepped over the next line) and the new state; the loop
  then adds one.
\<close>

definition processLine :: "jsstring list \<Rightarrow> nat \<Rightarrow> md_state \<Rightarrow> nat \<times> md_state" where
  "processLine inputLines i st =
     (let originalLine = inputLines ! i;
          trimmedLine = trim originalLine
      in if trimmedLine = [] then
           (i, flushCurrentParagraph
                 (if inPotentialTableBlock st then flushPotentialTableBlock st else st))
         else if isHeadingLine inputLines i then
           (let st1 = flushCurrentParagraph
                        (if inPotentialTableBlock st then flushPotentialTableBlock st else st);
                st2 = st1\<lparr>markdownOutputLines :=
                            markdownOutputLines st1 @ [js ''# '' @ trimmedLine, []]\<rparr>
            in if nextLineIsBlankOrEndOfFile inputLines i \<and> i + 1 < length inputLines \<and>
                  inputLines ! (i + 1) \<noteq> [] \<and> trim (inputLines ! (i + 1)) = []
               then (i + 1, st2) else (i, st2))
         else if hasMultipleSpacesBetweenWords originalLine \<or>
                 hasMultipleColumnsBySpaces originalLine then
           (let st1 = flushCurrentParagraph st
            in (i, st1\<lparr>inPotentialTableBlock := True,
                       potentialTableBlockLines := potentialTableBlockLines st1 @ [originalLine]\<rparr>))
         else
           (let st1 = (if inPotentialTableBlock st then flushPotentialTableBlock st else st)
            in (i, if trimmedLine \<noteq> [] then
                     st1\<lparr>currentParagraphCollector :=
                           currentParagraphCollector st1 @ [trimmedLine]\<rparr>
                   else st1)))"

lemma processLine_index: "i \<le> fst (processLine inputLines i st)"
  by (simp add: processLine_def Let_def)

function convertLoop :: "jsstring list \<Rightarrow> nat \<Rightarrow> md_state \<Rightarrow> md_state" where
  "convertLoop inputLines i st =
     (if i < length inputLines then
        convertLoop inputLines (fst (processLine inputLines i st) + 1)
          (snd (processLine inputLines i st))
      else st)"
  by pat_completeness auto
termination
proof (relation "measure (\<lambda>(inputLines, i, st). length inputLines - i)")
  show "wf (measure (\<lambda>(inputLines, i, st). length inputLines - i))" by simp
next
  fix inputLines :: "jsstring list" and i :: nat and st :: md_state
  assume "i < length inputLines"
  then show "((inputLines, fst (processLine inputLines i st) + 1, snd (processLine inputLines i st)),
              inputLines, i, st) \<in> measure (\<lambda>(inputLines, i, st). length inputLines - i)"
    using processLine_index [of i inputLines st] by simp
qed

declare convertLoop.simps [simp del]

definition initialState :: md_state where
  "initialState =
     \<lparr>markdownOutputLines = [], currentParagraphCollector = [],
      inPotentialTableBlock = False, potentialTableBlockLines = []\<rparr>"

text \<open>
  \<open>collectOutputLines\<close> is \<^verbatim>\<open>markdownOutputLines\<close> when the loop and the two last flushes
  are done; \<open>convertToMarkdownLogic\<close> is the text returned.
\<close>

definition collectOutputLines :: "jsstring \<Rightarrow> jsstring list" where
  "collectOutputLines rawText =
     (let st = convertLoop (splitLines rawText) 0 initialState
      in markdownOutputLines
           (flushCurrentParagraph
              (if inPotentialTableBlock st then flushPotentialTableBlock st else st)))"

definition newlineRun3 :: regexp where
  "newlineRun3 = \<lparr>atoms = [Atom (\<lambda>c. c = LF) (AtLeast 3)], groups = [], global = True\<rparr>"

definition convertToMarkdownLogic :: "jsstring \<Rightarrow> jsstring" where
  "convertToMarkdownLogic rawText =
     trim (replaceRegExp newlineRun3 [LF, LF] []
             (join [LF] (map trimEnd (collectOutputLines rawText))))"

text \<open>
  The source has no type of blocks: it pushes the lines of each block onto
  \<^verbatim>\<open>markdownOutputLines\<close>. \<open>blockLines\<close> gives the lines it pushes for a heading, a
  paragraph and a fenced block, so that a sequence of blocks can be compared with
  \<open>collectOutputLines\<close>.
\<close>

datatype MarkdownBlock = Heading jsstring | Paragraph jsstring | FencedBlock "jsstring list"

fun blockLines :: "MarkdownBlock \<Rightarrow> jsstring list" where
  "blockLines (Heading t) = [js ''# '' @ t, []]"
| "blockLines (Paragraph t) = [t, []]"
| "blockLines (FencedBlock ls) = [fence] @ ls @ [fence, []]"

definition serialize :: "MarkdownBlock list \<Rightarrow> jsstring list" where
  "serialize bs = concat (map blockLines bs)"


section \<open>The external engines and the entry points\<close>

text \<open>
  pdf.js, Tesseract and WebLLM are outside the library. A call of one of them, and a
  report to \<^verbatim>\<open>progressCallback\<close> (named by its stage), is an event; a \<open>world\<close> is the
  converter instance together with the events so far, in order. What the engines answer
  is a parameter: the pages of a file say what pdf.js and the OCR worker make of them
  (an absent answer is a rejected promise), an \<open>environment\<close> says which libraries are
  loaded and what the generative engine does. The asynchronous functions run alone, so
  an \<^verbatim>\<open>await\<close> is the next step; a \<^verbatim>\<open>throw\<close> and a rejection are the result \<open>Inl\<close>, with
  the world as it was left. The reports that WebLLM itself sends while a model loads are
  not traced, and the positions of text fragments are real numbers here.
\<close>

datatype event =
    Progress string
  | FileArrayBuffer
  | PdfGetDocument
  | PdfGetPage nat
  | PageGetTextContent nat
  | PageRender nat
  | TesseractCreateWorker jsstring
  | WorkerRecognize nat
  | WorkerTerminate
  | EngineCreate jsstring
  | ChatNew
  | ChatReload jsstring
  | EngineUnload nat
  | EngineCompletion nat
  | EngineGenerate nat

datatype error =
    InvalidInput
  | PdfJsNotLoaded
  | TesseractNotLoaded
  | WorkerInitFailed
  | WebLLMNotLoaded
  | LLMInitFailed
  | LLMNotReady
  | LLMGenerationFailed
  | Rejected

record text_item =
  str :: jsstring
  hasEOL :: bool
  transform4 :: real
  transform5 :: real
  width :: real
  height :: real

record pdf_page =
  textItems :: "text_item list option"
  renderFails :: bool
  recognizedText :: "jsstring option"

datatype js_argument =
    FileObject "pdf_page list option"
  | BlobObject "pdf_page list option"
  | StringValue jsstring
  | Undefined

record environment =
  pdfjsLoaded :: bool
  tesseractLoaded :: bool
  createWorkerFails :: bool
  createEngineResult :: "jsstring \<Rightarrow> chat_module option"
  chatInstance :: chat_module
  reloadFails :: "jsstring \<Rightarrow> bool"
  unloadFails :: bool
  completionReply :: "jsstring \<Rightarrow> jsstring option"
  generateReply :: "jsstring \<Rightarrow> jsstring option"

record world =
  converter :: Extract2MDConverter
  trace :: "event list"

definition emit :: "event \<Rightarrow> world \<Rightarrow> world" where
  "emit e w = w\<lparr>trace := trace w @ [e]\<rparr>"

definition progressCallback :: "string \<Rightarrow> world \<Rightarrow> world" where
  "progressCallback stage w = emit (Progress stage) w"

text \<open>\<^verbatim>\<open>_extractTextWithPdfJs\<close>: the text of a page from its fragments, page by page.\<close>

definition endsWithLF :: "jsstring \<Rightarrow> bool" where
  "endsWithLF s = (case rev s of [] \<Rightarrow> False | c # _ \<Rightarrow> c = LF)"

definition endsWithSpace :: "jsstring \<Rightarrow> bool" where
  "endsWithSpace s = (case rev s of [] \<Rightarrow> False | c # _ \<Rightarrow> c = 0x20)"

definition startsWithSpace :: "jsstring \<Rightarrow> bool" where
  "startsWithSpace s = (case s of [] \<Rightarrow> False | c # _ \<Rightarrow> c = 0x20)"

fun pageTextFrom :: "jsstring \<Rightarrow> text_item list \<Rightarrow> jsstring" where
  "pageTextFrom pageTextBuffer [] = pageTextBuffer"
| "pageTextFrom pageTextBuffer (item # rest) =
     (if hasEOL item then
        pageTextFrom
          (if endsWithLF (pageTextBuffer @ str item) then pageTextBuffer @ str item
           else pageTextBuffer @ str item @ [LF]) rest
      else
        (case rest of
           [] \<Rightarrow> pageTextBuffer @ str item
         | nextItem # _ \<Rightarrow>
             if str item \<noteq> [] \<and> \<not> endsWithSpace (str item) \<and> str nextItem \<noteq> [] \<and>
                \<not> startsWithSpace (str nextItem) \<and>
                \<bar>transform5 item - transform5 nextItem\<bar> < height item * 0.5 \<and>
                transform4 nextItem - (transform4 item + width item) > - 0.5
             then pageTextFrom (pageTextBuffer @ str item @ [0x20]) rest
             else pageTextFrom (pageTextBuffer @ str item) rest))"

fun extractPages :: "nat \<Rightarrow> pdf_page list \<Rightarrow> jsstring \<Rightarrow> world \<Rightarrow> (error + jsstring) \<times> world" where
  "extractPages pageNum [] fullText w = (Inr fullText, w)"
| "extractPages pageNum (page # rest) fullText w =
     (case textItems page of
        None \<Rightarrow>
          (Inl Rejected,
           emit (PageGetTextContent pageNum)
             (emit (PdfGetPage pageNum) (progressCallback ''pdfjs_page'' w)))
      | Some items \<Rightarrow>
          extractPages (pageNum + 1) rest
            (if trim (pageTextFrom [] items) \<noteq> [] \<and> \<not> endsWithLF (pageTextFrom [] items)
             then fullText @ pageTextFrom [] items @ [LF]
             else fullText @ pageTextFrom [] items)
            (emit (PageGetTextContent pageNum)
               (emit (PdfGetPage pageNum) (progressCallback ''pdfjs_page'' w))))"

definition extractTextWithPdfJs ::
    "environment \<Rightarrow> world \<Rightarrow> pdf_page list option \<Rightarrow> (error + jsstring) \<times> world" where
  "extractTextWithPdfJs env w fileArrayBuffer =
     (if \<not> pdfjsLoaded env then (Inl PdfJsNotLoaded, w)
      else
        (case fileArrayBuffer of
           None \<Rightarrow> (Inl Rejected, emit PdfGetDocument (progressCallback ''pdfjs_load'' w))
         | Some pages \<Rightarrow>
             (case extractPages 1 pages [] (emit PdfGetDocument (progressCallback ''pdfjs_load'' w)) of
                (Inl e, w') \<Rightarrow> (Inl e, w')
              | (Inr fullText, w') \<Rightarrow>
                  (Inr fullText, progressCallback ''pdfjs_extract_complete'' w'))))"

text \<open>
  \<^verbatim>\<open>quickConvert\<close> and \<^verbatim>\<open>highAccuracyConvert\<close>. Both start with the test
  \<^verbatim>\<open>pdfFile instanceof File\<close>. \<open>normalizeLineBreaks\<close> is
  \<^verbatim>\<open>.replace(/\r\n/g, '\n').replace(/\n{2,}/g, '\n\n').trim()\<close>.
\<close>

definition crlf :: regexp where
  "crlf = \<lparr>atoms = [Atom (\<lambda>c. c = 0x0D) Once, Atom (\<lambda>c. c = LF) Once], groups = [], global = True\<rparr>"

definition newlineRun2 :: regexp where
  "newlineRun2 = \<lparr>atoms = [Atom (\<lambda>c. c = LF) (AtLeast 2)], groups = [], global = True\<rparr>"

definition normalizeLineBreaks :: "jsstring \<Rightarrow> jsstring" where
  "normalizeLineBreaks cleanedText =
     trim (replaceRegExp newlineRun2 [LF, LF] [] (replaceRegExp crlf [LF] [] cleanedText))"

definition rulesOrNone :: "PostProcessRule list option \<Rightarrow> PostProcessRule list" where
  "rulesOrNone rs = (case rs of None \<Rightarrow> [] | Some r \<Rightarrow> r)"

definition quickConvert ::
    "environment \<Rightarrow> world \<Rightarrow> js_argument \<Rightarrow> PostProcessRule list option \<Rightarrow> (error + jsstring) \<times> world" where
  "quickConvert env w pdfFile postProcessRules =
     (case pdfFile of
        FileObject content \<Rightarrow>
          (case extractTextWithPdfJs env (emit FileArrayBuffer (progressCallback ''start_quick'' w))
                  content of
             (Inl e, w') \<Rightarrow> (Inl e, w')
           | (Inr rawText, w') \<Rightarrow>
               (Inr (convertToMarkdownLogic
                       (normalizeLineBreaks
                          (postProcessText (converter w') rawText (rulesOrNone postProcessRules)))),
                progressCallback ''complete_quick''
                  (progressCallback ''markdown_quick''
                     (progressCallback ''postprocess_quick'' w'))))
      | _ \<Rightarrow> (Inl InvalidInput, w))"

fun ocrPages :: "nat \<Rightarrow> pdf_page list \<Rightarrow> jsstring \<Rightarrow> world \<Rightarrow> (error + jsstring) \<times> world" where
  "ocrPages pageNum [] fullTextAccumulator w = (Inr fullTextAccumulator, w)"
| "ocrPages pageNum (page # rest) fullTextAccumulator w =
     (if renderFails page then
        (Inl Rejected,
         emit (PageRender pageNum)
           (emit (PdfGetPage pageNum) (progressCallback ''ocr_render_page'' w)))
      else
        (case recognizedText page of
           None \<Rightarrow>
             (Inl Rejected,
              emit (WorkerRecognize pageNum)
                (progressCallback ''ocr_recognize_page''
                   (emit (PageRender pageNum)
                      (emit (PdfGetPage pageNum) (progressCallback ''ocr_render_page'' w)))))
         | Some ocrPageText \<Rightarrow>
             ocrPages (pageNum + 1) rest (fullTextAccumulator @ ocrPageText @ [LF])
               (emit (WorkerRecognize pageNum)
                  (progressCallback ''ocr_recognize_page''
                     (emit (PageRender pageNum)
                        (emit (PdfGetPage pageNum) (progressCallback ''ocr_render_page'' w)))))))"

record HighAccuracyConvertOptions =
  hac_postProcessRules :: "PostProcessRule list option"
  hac_tesseractLanguage :: "jsstring option"

definition highAccuracyConvert ::
    "environment \<Rightarrow> world \<Rightarrow> js_argument \<Rightarrow> HighAccuracyConvertOptions \<Rightarrow> (error + jsstring) \<times> world" where
  "highAccuracyConvert env w pdfFile options =
     (case pdfFile of
        FileObject content \<Rightarrow>
          (if \<not> pdfjsLoaded env then (Inl PdfJsNotLoaded, w)
           else if \<not> tesseractLoaded env then (Inl TesseractNotLoaded, w)
           else if createWorkerFails env then
             (Inl WorkerInitFailed,
              progressCallback ''ocr_worker_error''
                (emit (TesseractCreateWorker
                         (orDefault (hac_tesseractLanguage options) (tesseractLanguage (converter w))))
                   (progressCallback ''ocr_worker_init'' (progressCallback ''start_ocr'' w))))
           else
             (case content of
                None \<Rightarrow>
                  (Inl Rejected,
                   emit PdfGetDocument
                     (emit FileArrayBuffer
                        (emit (TesseractCreateWorker
                                 (orDefault (hac_tesseractLanguage options)
                                    (tesseractLanguage (converter w))))
                           (progressCallback ''ocr_worker_init''
                              (progressCallback ''start_ocr'' w)))))
              | Some pages \<Rightarrow>
                  (case ocrPages 1 pages []
                          (emit PdfGetDocument
                             (emit FileArrayBuffer
                                (emit (TesseractCreateWorker
                                         (orDefault (hac_tesseractLanguage options)
                                            (tesseractLanguage (converter w))))
                                   (progressCallback ''ocr_worker_init''
                                      (progressCallback ''start_ocr'' w))))) of
                     (Inl e, w') \<Rightarrow> (Inl e, w')
                   | (Inr fullTextAccumulator, w') \<Rightarrow>
                       (Inr (convertToMarkdownLogic
                               (normalizeLineBreaks
                                  (postProcessText (converter w') fullTextAccumulator
                                     (rulesOrNone (hac_postProcessRules options))))),
                        progressCallback ''complete_ocr''
                          (progressCallback ''markdown_ocr''
                             (progressCallback ''postprocess_ocr''
                                (emit WorkerTerminate
                                   (progressCallback ''ocr_terminate_worker'' w'))))))))
      | _ \<Rightarrow> (Inl InvalidInput, w))"

text \<open>
  \<^verbatim>\<open>_initializeLLM\<close>, \<^verbatim>\<open>llmRewrite\<close> and \<^verbatim>\<open>unloadLLM\<close>. \<open>createEngine\<close> is the
  \<^verbatim>\<open>try\<close> block of \<^verbatim>\<open>_initializeLLM\<close> with its \<^verbatim>\<open>catch\<close>; the call of \<^verbatim>\<open>unload\<close> before
  it is outside the \<^verbatim>\<open>try\<close>.
\<close>

definition currentModelId :: "chat_module option \<Rightarrow> jsstring option" where
  "currentModelId cm =
     (case cm of
        None \<Rightarrow> None
      | Some m \<Rightarrow>
          (case modelId m of
             None \<Rightarrow> config_model_id m
           | Some i \<Rightarrow> if i = [] then config_model_id m else Some i))"

definition setChatModule :: "chat_module option \<Rightarrow> world \<Rightarrow> world" where
  "setChatModule cm w = w\<lparr>converter := (converter w)\<lparr>chatModule := cm\<rparr>\<rparr>"

definition setInitialized :: "bool \<Rightarrow> world \<Rightarrow> world" where
  "setInitialized b w = w\<lparr>converter := (converter w)\<lparr>llmInitialized := b\<rparr>\<rparr>"

definition initFailed :: "world \<Rightarrow> (error + unit) \<times> world" where
  "initFailed w = (Inl LLMInitFailed, progressCallback ''llm_init_error'' (setInitialized False w))"

definition initSucceeded :: "world \<Rightarrow> (error + unit) \<times> world" where
  "initSucceeded w = (Inr (), progressCallback ''llm_init_complete'' (setInitialized True w))"

definition createEngine :: "environment \<Rightarrow> world \<Rightarrow> jsstring \<Rightarrow> (error + unit) \<times> world" where
  "createEngine env w model =
     (if WebLLMCreateEngine (converter w) then
        (if llmModelLibUrl (converter w) = None \<and> model \<noteq> DEFAULT_LLM_MODEL then initFailed w
         else
           (case createEngineResult env model of
              None \<Rightarrow> initFailed (emit (EngineCreate model) w)
            | Some engine \<Rightarrow>
                initSucceeded
                  (setChatModule (Some (engine\<lparr>modelId := Some model\<rparr>))
                     (emit (EngineCreate model) w))))
      else if WebLLMChatConstructor (converter w) then
        (if \<not> hasReload (chatInstance env) then
           initFailed (setChatModule (Some ((chatInstance env)\<lparr>modelId := Some model\<rparr>))
                         (emit ChatNew w))
         else if reloadFails env model then
           initFailed (emit (ChatReload model)
                         (setChatModule (Some ((chatInstance env)\<lparr>modelId := Some model\<rparr>))
                            (emit ChatNew w)))
         else
           initSucceeded (emit (ChatReload model)
                            (setChatModule (Some ((chatInstance env)\<lparr>modelId := Some model\<rparr>))
                               (emit ChatNew w))))
      else initFailed w)"

definition initializeLLM :: "environment \<Rightarrow> world \<Rightarrow> jsstring \<Rightarrow> (error + unit) \<times> world" where
  "initializeLLM env w model =
     (if \<not> WebLLMCreateEngine (converter w) \<and> \<not> WebLLMChatConstructor (converter w) then
        (Inl WebLLMNotLoaded, w)
      else if llmInitialized (converter w) \<and> chatModule (converter w) \<noteq> None \<and>
              currentModelId (chatModule (converter w)) = Some model then
        (Inr (), progressCallback ''llm_ready'' w)
      else
        (case chatModule (converter w) of
           None \<Rightarrow> createEngine env (setInitialized False (progressCallback ''llm_init'' w)) model
         | Some loaded \<Rightarrow>
             if hasUnload loaded then
               (if unloadFails env then
                  (Inl Rejected, emit (EngineUnload (engineId loaded)) (progressCallback ''llm_init'' w))
                else
                  createEngine env
                    (setInitialized False
                       (setChatModule None
                          (emit (EngineUnload (engineId loaded)) (progressCallback ''llm_init'' w))))
                    model)
             else createEngine env (setInitialized False (progressCallback ''llm_init'' w)) model))"

record LLMRewriteOptions =
  rw_llmModel :: "jsstring option"
  rw_llmPromptTemplate :: "(jsstring \<Rightarrow> jsstring) option"

definition defaultPromptTemplate :: "jsstring \<Rightarrow> jsstring" where
  "defaultPromptTemplate t =
     js ''Please rewrite the following text, which was extracted from a PDF. Aim to improve its clarity, correct grammatical errors, and enhance its flow and professional tone, while preserving the original meaning, information, details, context and structure. Correct spelling errors in common words (do not change spelling in uncommon words like names, places, brands, etc.). Output only the rewritten text.''
       @ [LF, LF] @ js ''Original Text:'' @ [LF] @ t @ [LF, LF] @ js ''Rewritten Text:''"

definition generationFailed :: "world \<Rightarrow> (error + jsstring) \<times> world" where
  "generationFailed w = (Inl LLMGenerationFailed, progressCallback ''llm_generate_error'' w)"

definition generate :: "environment \<Rightarrow> world \<Rightarrow> chat_module \<Rightarrow> jsstring \<Rightarrow> (error + jsstring) \<times> world" where
  "generate env w engine prompt =
     (if WebLLMCreateEngine (converter w) \<and> hasChatCompletions engine then
        (case completionReply env prompt of
           None \<Rightarrow> generationFailed (emit (EngineCompletion (engineId engine)) w)
         | Some replyContent \<Rightarrow>
             (Inr replyContent,
              progressCallback ''llm_generate_complete''
                (emit (EngineCompletion (engineId engine)) w)))
      else if hasGenerate engine then
        (case generateReply env prompt of
           None \<Rightarrow> generationFailed (emit (EngineGenerate (engineId engine)) w)
         | Some replyContent \<Rightarrow>
             (Inr replyContent,
              progressCallback ''llm_generate_complete''
                (emit (EngineGenerate (engineId engine)) w)))
      else generationFailed w)"

definition llmRewrite ::
    "environment \<Rightarrow> world \<Rightarrow> jsstring \<Rightarrow> LLMRewriteOptions \<Rightarrow> (error + jsstring) \<times> world" where
  "llmRewrite env w textToRewrite options =
     (case initializeLLM env w (orDefault (rw_llmModel options) (llmModel (converter w))) of
        (Inl e, w') \<Rightarrow> (Inl e, w')
      | (Inr _, w') \<Rightarrow>
          (case chatModule (converter w') of
             None \<Rightarrow> (Inl LLMNotReady, w')
           | Some engine \<Rightarrow>
               if \<not> llmInitialized (converter w') then (Inl LLMNotReady, w')
               else
                 generate env (progressCallback ''llm_generate_start'' w') engine
                   ((case rw_llmPromptTemplate options of
                       None \<Rightarrow> defaultPromptTemplate
                     | Some promptTemplate \<Rightarrow> promptTemplate) textToRewrite)))"

definition unloadLLM :: "environment \<Rightarrow> world \<Rightarrow> (error + unit) \<times> world" where
  "unloadLLM env w =
     (case chatModule (converter w) of
        None \<Rightarrow> (Inr (), w)
      | Some loaded \<Rightarrow>
          if \<not> hasUnload loaded then (Inl Rejected, progressCallback ''llm_unload'' w)
          else if unloadFails env then
            (Inl Rejected, emit (EngineUnload (engineId loaded)) (progressCallback ''llm_unload'' w))
          else
            (Inr (),
             progressCallback ''llm_unload_complete''
               (setInitialized False
                  (setChatModule None
                     (emit (EngineUnload (engineId loaded)) (progressCallback ''llm_unload'' w))))))"

section \<open>The converter with no options, and the scenario text\<close>

definition invoiceText :: jsstring where
  "invoiceText =
     js ''TOTAL DUE'' @ [LF, LF] @ js ''Please   pay    within 30 days.'' @ [LF]
       @ js ''Amount:   100   USD'' @ [LF]"

definition defaultConverter :: Extract2MDConverter where
  "defaultConverter = newConverter True True noOptions"

section \<open>Notions used in the proofs\<close>

text \<open>
  The code units that the first ten built-in rules look for, those ten rules, the
  pattern of the eleventh, and the texts in which whitespace stands only as single
  spaces.
\<close>

definition isBuiltinTarget :: "jschar \<Rightarrow> bool" where
  "isBuiltinTarget c =
     (c = 0xFB00 \<or> c = 0xFB01 \<or> c = 0xFB02 \<or> c = 0xFB03 \<or> c = 0xFB04 \<or>
      c = 0x2018 \<or> c = 0x2019 \<or> c = 0x201C \<or> c = 0x201D \<or> isBullet c \<or>
      c = 0x2013 \<or> c = 0x2014 \<or> c = 0xAD)"

fun wsNormal :: "jsstring \<Rightarrow> bool" where
  "wsNormal [] = True"
| "wsNormal [c] = (if isWhitespaceRuleClass c then c = 0x20 else True)"
| "wsNormal (c # d # t) =
     ((if isWhitespaceRuleClass c then c = 0x20 \<and> \<not> isWhitespaceRuleClass d else True) \<and>
      wsNormal (d # t))"

definition charRules :: "PostProcessRule list" where
  "charRules = butlast builtinRules"

definition whitespaceRun :: regexp where
  "whitespaceRun = \<lparr>atoms = [Atom isWhitespaceRuleClass (AtLeast 1)], groups = [], global = True\<rparr>"


text \<open>
  \<open>noMatchIn as u t\<close>: in the text \<open>u @ t\<close> the pattern matches at no position of \<open>u\<close>.
  \<open>noOccurrenceIn p u t\<close>: in the text \<open>u @ t\<close> the string \<open>p\<close> stands at no position of \<open>u\<close>.
\<close>

fun noMatchIn :: "atom list \<Rightarrow> jsstring \<Rightarrow> jsstring \<Rightarrow> bool" where
  "noMatchIn as [] t = True"
| "noMatchIn as (c # u) t = (matchAtoms as (c # u @ t) = None \<and> noMatchIn as u t)"

fun noOccurrenceIn :: "jsstring \<Rightarrow> jsstring \<Rightarrow> jsstring \<Rightarrow> bool" where
  "noOccurrenceIn p [] t = True"
| "noOccurrenceIn p (c # u) t = (take (length p) (c # u @ t) \<noteq> p \<and> noOccurrenceIn p u t)"

text \<open>
  A line is \<open>nonBlank\<close> when \<^verbatim>\<open>trim\<close> leaves something of it. \<open>flushPending\<close> is the pair
  of flushes that the blank branch, the heading branch and the end of the loop perform.
  \<open>pendingSound\<close> and \<open>holdsText\<close> are the invariants of the loop: nothing blank waits in
  a collector and table lines wait only in table mode; something is emitted or waits.
\<close>

definition nonBlank :: "jsstring \<Rightarrow> bool" where
  "nonBlank l = list_ex (\<lambda>c. \<not> isSpaceClass c) l"

definition flushPending :: "md_state \<Rightarrow> md_state" where
  "flushPending st =
     flushCurrentParagraph (if inPotentialTableBlock st then flushPotentialTableBlock st else st)"

definition pendingSound :: "md_state \<Rightarrow> bool" where
  "pendingSound st =
     (list_all nonBlank (currentParagraphCollector st) \<and>
      list_all nonBlank (potentialTableBlockLines st) \<and>
      (potentialTableBlockLines st = [] \<or> inPotentialTableBlock st))"

definition holdsText :: "md_state \<Rightarrow> bool" where
  "holdsText st =
     (list_ex nonBlank (markdownOutputLines st) \<or> currentParagraphCollector st \<noteq> [] \<or>
      potentialTableBlockLines st \<noteq> [])"

text \<open>
  \<open>readyFor model engine w\<close>: the converter of \<open>w\<close> holds \<open>engine\<close>, initialized for
  \<open>model\<close>. An initialization call is a call of \<^verbatim>\<open>CreateMLCEngine\<close> or of \<^verbatim>\<open>reload\<close>.
\<close>

definition isFileObject :: "js_argument \<Rightarrow> bool" where
  "isFileObject v = (case v of FileObject _ \<Rightarrow> True | _ \<Rightarrow> False)"

definition readyFor :: "jsstring \<Rightarrow> chat_module \<Rightarrow> world \<Rightarrow> bool" where
  "readyFor model engine w =
     (WebLLMCreateEngine (converter w) \<and> llmInitialized (converter w) \<and>
      chatModule (converter w) = Some (engine\<lparr>modelId := Some model\<rparr>))"

definition isInitializationCall :: "event \<Rightarrow> bool" where
  "isInitializationCall e = (case e of EngineCreate _ \<Rightarrow> True | ChatReload _ \<Rightarrow> True | _ \<Rightarrow> False)"

definition initializationCalls :: "event list \<Rightarrow> nat" where
  "initializationCalls es = length (filter isInitializationCall es)"

definition afterTwoRewrites ::
    "environment \<Rightarrow> world \<Rightarrow> jsstring \<Rightarrow> LLMRewriteOptions \<Rightarrow> jsstring \<Rightarrow> LLMRewriteOptions \<Rightarrow> world" where
  "afterTwoRewrites env w t1 o1 t2 o2 = snd (llmRewrite env (snd (llmRewrite env w t1 o1)) t2 o2)"

section \<open>The rule order as the specification words it\<close>

text \<open>
  The specification lists the built-in rules, then the rules of the constructor, then the
  rules of the call, and the camelCase/PascalCase rules last, when the feature is on.
  \<open>claimedOrderPostProcessText\<close> follows these words; \<open>postProcessText\<close> above follows
  the source.
\<close>

definition claimedOrderPostProcessText ::
    "bool \<Rightarrow> PostProcessRule list \<Rightarrow> PostProcessRule list \<Rightarrow> jsstring \<Rightarrow> jsstring" where
  "claimedOrderPostProcessText split constructorRules callRules text =
     (if text = [] then []
      else trim (foldl applyRule text
                  (builtinRules @ constructorRules @ callRules
                     @ (if split then splitPascalCaseRules else []))))"

section \<open>Rules and converters of the examples\<close>

definition stringRule :: "string \<Rightarrow> string \<Rightarrow> PostProcessRule" where
  "stringRule p r = \<lparr>rule_find = FindString (js p), rule_replace = ReplaceString (js r)\<rparr>"

definition regExpRule :: "regexp \<Rightarrow> jsstring \<Rightarrow> PostProcessRule" where
  "regExpRule re repl = \<lparr>rule_find = FindRegExp re, rule_replace = ReplaceString repl\<rparr>"

definition letterA :: regexp where
  "letterA = \<lparr>atoms = [Atom (\<lambda>c. c = 0x61) Once], groups = [], global = True\<rparr>"

definition underscoreRule :: PostProcessRule where
  "underscoreRule = charRule (\<lambda>c. c = 0x5F) []"

definition splittingConverter :: "PostProcessRule list \<Rightarrow> Extract2MDConverter" where
  "splittingConverter rs =
     newConverter True True
       (noOptions\<lparr>opt_splitPascalCase := Some True, opt_postProcessRules := Some rs\<rparr>)"

text \<open>
  A page in which both libraries are loaded and every engine call succeeds, a converter
  that has done nothing yet, and a file whose second page the OCR worker rejects.
\<close>

definition browserEngine :: "nat \<Rightarrow> chat_module" where
  "browserEngine n =
     \<lparr>engineId = n, modelId = None, config_model_id = None, hasUnload = True,
      hasReload = True, hasChatCompletions = True, hasGenerate = False\<rparr>"

definition browser :: environment where
  "browser =
     \<lparr>pdfjsLoaded = True, tesseractLoaded = True, createWorkerFails = False,
      createEngineResult = (\<lambda>model. Some (browserEngine (length model))),
      chatInstance =
        \<lparr>engineId = 0, modelId = None, config_model_id = None, hasUnload = True,
         hasReload = True, hasChatCompletions = False, hasGenerate = True\<rparr>,
      reloadFails = (\<lambda>model. False), unloadFails = False,
      completionReply = (\<lambda>prompt. Some (js ''rewritten'')),
      generateReply = (\<lambda>prompt. Some (js ''rewritten''))\<rparr>"

definition freshWorld :: "Extract2MDOptions \<Rightarrow> world" where
  "freshWorld options = \<lparr>converter = newConverter True True options, trace = []\<rparr>"

definition readablePage :: pdf_page where
  "readablePage = \<lparr>textItems = Some [], renderFails = False, recognizedText = Some (js ''Page one'')\<rparr>"

definition unreadablePage :: pdf_page where
  "unreadablePage = \<lparr>textItems = Some [], renderFails = False, recognizedText = None\<rparr>"

definition noConvertOptions :: HighAccuracyConvertOptions where
  "noConvertOptions = \<lparr>hac_postProcessRules = None, hac_tesseractLanguage = None\<rparr>"

definition defaultModelOptions :: LLMRewriteOptions where
  "defaultModelOptions = \<lparr>rw_llmModel = None, rw_llmPromptTemplate = None\<rparr>"

definition otherModel :: jsstring where
  "otherModel = js ''Llama-3.2-1B-Instruct-q4f16_1-MLC''"

definition otherModelOptions :: LLMRewriteOptions where
  "otherModelOptions = \<lparr>rw_llmModel = Some otherModel, rw_llmPromptTemplate = None\<rparr>"

definition withModelLib :: Extract2MDOptions where
  "withModelLib = noOptions\<lparr>opt_llmModelLibUrl := Some (js ''https://example.org/model.wasm'')\<rparr>"

section \<open>Replacing by a single class\<close>

lemma getSubstitution_literal:
  "0x24 \<notin> set repl \<Longrightarrow> getSubstitution m p f caps repl = repl"
  by (induction m p f caps repl rule: getSubstitution.induct) auto

lemma matchRep_total:
  "matchRep cls n (\<lambda>s. Some (f s)) s =
     (if n \<le> length (takeWhile cls s) then Some (takeWhile cls s, f (dropWhile cls s)) else None)"
  by (induction s arbitrary: n) (auto split: option.splits)

lemma matchAtoms_run:
  "matchAtoms [Atom cls (AtLeast n)] s =
     (if n \<le> length (takeWhile cls s) then Some ([takeWhile cls s], dropWhile cls s) else None)"
  by (simp add: matchRep_total [where f = "\<lambda>s. ([], s)"])

lemma replaceRegExp_once:
  assumes "0x24 \<notin> set repl"
  shows "replaceRegExp \<lparr>atoms = [Atom cls Once], groups = [], global = True\<rparr> repl pre s
     = concat (map (\<lambda>c. if cls c then repl else [c]) s)"
proof (induction s arbitrary: pre)
  case Nil
  show ?case by (subst replaceRegExp.simps) simp
next
  case (Cons c cs)
  show ?case
    by (subst replaceRegExp.simps) (simp add: Cons getSubstitution_literal [OF assms])
qed

lemma replaceRegExp_run:
  assumes "0x24 \<notin> set repl" "0 < n"
  shows "replaceRegExp \<lparr>atoms = [Atom cls (AtLeast n)], groups = [], global = True\<rparr> repl pre s
     = (case s of
          [] \<Rightarrow> []
        | c # cs \<Rightarrow>
            if n \<le> length (takeWhile cls s)
            then repl @ replaceRegExp \<lparr>atoms = [Atom cls (AtLeast n)], groups = [], global = True\<rparr>
                          repl (pre @ takeWhile cls s) (dropWhile cls s)
            else c # replaceRegExp \<lparr>atoms = [Atom cls (AtLeast n)], groups = [], global = True\<rparr>
                          repl (pre @ [c]) cs)"
  using assms
  by (subst replaceRegExp.simps)
     (auto simp del: matchAtoms.simps simp add: matchAtoms_run getSubstitution_literal
        split: list.splits)

section \<open>The built-in rules and idempotence\<close>

lemma applyRule_charRule:
  "0x24 \<notin> set (js r) \<Longrightarrow>
   applyRule s (charRule cls r) = concat (map (\<lambda>c. if cls c then js r else [c]) s)"
  by (simp add: applyRule_def charRule_def replaceRegExp_once)

lemma list_all_substituted:
  "list_all Q (concat (map (\<lambda>c. if cls c then r else [c]) s))
     = list_all (\<lambda>c. if cls c then list_all Q r else Q c) s"
  by (induction s) auto

lemma substituted_id:
  "list_all (\<lambda>c. \<not> cls c) s \<Longrightarrow> concat (map (\<lambda>c. if cls c then r else [c]) s) = s"
  by (induction s) auto

lemma builtinRules_split: "builtinRules = charRules @ [whitespaceRule]"
  by (simp add: charRules_def builtinRules_def)

lemma charRule_step:
  assumes "0x24 \<notin> set (js r)" "list_all (\<lambda>c. Q c \<and> \<not> cls c) (js r)" "list_all Q s"
  shows "list_all (\<lambda>c. Q c \<and> \<not> cls c) (applyRule s (charRule cls r))"
  using assms by (auto simp: applyRule_charRule list_all_substituted list_all_iff)

lemma charRule_id:
  "0x24 \<notin> set (js r) \<Longrightarrow> list_all (\<lambda>c. \<not> cls c) s \<Longrightarrow> applyRule s (charRule cls r) = s"
  by (simp add: applyRule_charRule substituted_id)

lemma js_simps: "js [] = []" "js (x # xs) = of_char x # js xs"
  by (simp_all add: js_def)

lemma charRules_eq:
  "charRules =
     [charRule (\<lambda>c. c = 0xFB00) ''ff'',
      charRule (\<lambda>c. c = 0xFB01) ''fi'',
      charRule (\<lambda>c. c = 0xFB02) ''fl'',
      charRule (\<lambda>c. c = 0xFB03) ''ffi'',
      charRule (\<lambda>c. c = 0xFB04) ''ffl'',
      charRule (\<lambda>c. c = 0x2018 \<or> c = 0x2019) [CHR 0x27],
      charRule (\<lambda>c. c = 0x201C \<or> c = 0x201D) [CHR 0x22],
      charRule isBullet ''-'',
      charRule (\<lambda>c. c = 0x2013 \<or> c = 0x2014) ''-'',
      charRule (\<lambda>c. c = 0xAD) []]"
  by (simp add: charRules_def builtinRules_def)

lemma charRules_clean: "list_all (\<lambda>c. \<not> isBuiltinTarget c) (foldl applyRule s charRules)"
proof -
  have "list_all (\<lambda>c. (((((((((((True \<and> \<not> c = 0xFB00) \<and> \<not> c = 0xFB01) \<and> \<not> c = 0xFB02) \<and> \<not> c = 0xFB03)
          \<and> \<not> c = 0xFB04) \<and> \<not> (c = 0x2018 \<or> c = 0x2019)) \<and> \<not> (c = 0x201C \<or> c = 0x201D))
          \<and> \<not> isBullet c) \<and> \<not> (c = 0x2013 \<or> c = 0x2014)) \<and> \<not> c = 0xAD)))
        (foldl applyRule s charRules)"
    unfolding charRules_eq foldl.simps
    by (intro charRule_step; simp add: js_simps isBullet_def list_all_iff)
  then show ?thesis
    by (simp add: list_all_iff isBuiltinTarget_def)
qed

lemma not_target_classes:
  assumes "list_all (\<lambda>c. \<not> isBuiltinTarget c) s"
  shows "list_all (\<lambda>c. \<not> c = 0xFB00) s \<and> list_all (\<lambda>c. \<not> c = 0xFB01) s \<and>
    list_all (\<lambda>c. \<not> c = 0xFB02) s \<and> list_all (\<lambda>c. \<not> c = 0xFB03) s \<and>
    list_all (\<lambda>c. \<not> c = 0xFB04) s \<and> list_all (\<lambda>c. \<not> (c = 0x2018 \<or> c = 0x2019)) s \<and>
    list_all (\<lambda>c. \<not> (c = 0x201C \<or> c = 0x201D)) s \<and> list_all (\<lambda>c. \<not> isBullet c) s \<and>
    list_all (\<lambda>c. \<not> (c = 0x2013 \<or> c = 0x2014)) s \<and> list_all (\<lambda>c. \<not> c = 0xAD) s"
  using assms by (simp add: list_all_iff isBuiltinTarget_def)

lemma charRules_id:
  assumes "list_all (\<lambda>c. \<not> isBuiltinTarget c) s"
  shows "foldl applyRule s charRules = s"
  unfolding charRules_eq foldl.simps
  using not_target_classes [OF assms]
  by (simp add: charRule_id js_simps)
lemma applyRule_whitespaceRule:
  "applyRule s whitespaceRule = replaceRegExp whitespaceRun [0x20] [] s"
  by (simp add: applyRule_def whitespaceRule_def whitespaceRun_def js_simps)

lemma collapse_Nil: "replaceRegExp whitespaceRun [0x20] pre [] = []"
  unfolding whitespaceRun_def by (subst replaceRegExp_run) simp_all

lemma collapse_other:
  "\<not> isWhitespaceRuleClass c \<Longrightarrow>
   replaceRegExp whitespaceRun [0x20] pre (c # cs) = c # replaceRegExp whitespaceRun [0x20] (pre @ [c]) cs"
  unfolding whitespaceRun_def by (subst replaceRegExp_run) simp_all

lemma collapse_space:
  "isWhitespaceRuleClass c \<Longrightarrow>
   replaceRegExp whitespaceRun [0x20] pre (c # cs)
     = 0x20 # replaceRegExp whitespaceRun [0x20] (pre @ c # takeWhile isWhitespaceRuleClass cs)
               (dropWhile isWhitespaceRuleClass cs)"
  unfolding whitespaceRun_def by (subst replaceRegExp_run) simp_all

lemma wsNormal_other: "\<not> isWhitespaceRuleClass c \<Longrightarrow> wsNormal (c # t) = wsNormal t"
  by (cases t) simp_all

lemma wsNormal_space:
  "wsNormal (0x20 # t) = ((case t of [] \<Rightarrow> True | d # _ \<Rightarrow> \<not> isWhitespaceRuleClass d) \<and> wsNormal t)"
  by (cases t) (auto simp: isWhitespaceRuleClass_def isSpaceClass_def)

lemma collapse_normal: "wsNormal (replaceRegExp whitespaceRun [0x20] pre s)"
proof (induction "length s" arbitrary: s pre rule: less_induct)
  case less
  show ?case
  proof (cases s)
    case Nil
    then show ?thesis by (simp add: collapse_Nil)
  next
    case (Cons c cs)
    show ?thesis
    proof (cases "isWhitespaceRuleClass c")
      case False
      with Cons less show ?thesis by (simp add: collapse_other wsNormal_other)
    next
      case True
      let ?d = "dropWhile isWhitespaceRuleClass cs"
      have len: "length ?d < length s"
        using Cons length_dropWhile_le [of isWhitespaceRuleClass cs] by simp
      have n: "wsNormal (replaceRegExp whitespaceRun [0x20] p ?d)" for p
        using less [OF len] .
      have h: "case replaceRegExp whitespaceRun [0x20] p ?d of [] \<Rightarrow> True
                 | d # _ \<Rightarrow> \<not> isWhitespaceRuleClass d" for p
      proof (cases ?d)
        case Nil
        show ?thesis by (simp only: Nil collapse_Nil list.case)
      next
        case (Cons d ds)
        then have "?d \<noteq> []" by simp
        then have "\<not> isWhitespaceRuleClass (hd ?d)"
          by (rule hd_dropWhile)
        with Cons have "\<not> isWhitespaceRuleClass d"
          by simp
        then show ?thesis by (simp add: Cons collapse_other)
      qed
      from True Cons n h show ?thesis
        by (simp add: collapse_space wsNormal_space)
    qed
  qed
qed

lemma collapse_id: "wsNormal s \<Longrightarrow> replaceRegExp whitespaceRun [0x20] pre s = s"
proof (induction s arbitrary: pre)
  case Nil
  show ?case by (simp add: collapse_Nil)
next
  case (Cons c cs)
  show ?case
  proof (cases "isWhitespaceRuleClass c")
    case False
    with Cons show ?thesis by (simp add: collapse_other wsNormal_other)
  next
    case True
    with Cons.prems have c: "c = 0x20" and d: "dropWhile isWhitespaceRuleClass cs = cs"
      and n: "wsNormal cs"
      by (cases cs; simp)+
    with True Cons.IH show ?thesis
      by (simp add: collapse_space)
  qed
qed

lemma collapse_all:
  "list_all Q s \<Longrightarrow> Q 0x20 \<Longrightarrow> list_all Q (replaceRegExp whitespaceRun [0x20] pre s)"
proof (induction "length s" arbitrary: s pre rule: less_induct)
  case less
  show ?case
  proof (cases s)
    case Nil
    then show ?thesis by (simp add: collapse_Nil)
  next
    case (Cons c cs)
    show ?thesis
    proof (cases "isWhitespaceRuleClass c")
      case False
      with Cons less show ?thesis by (simp add: collapse_other)
    next
      case True
      let ?d = "dropWhile isWhitespaceRuleClass cs"
      have len: "length ?d < length s"
        using Cons length_dropWhile_le [of isWhitespaceRuleClass cs] by simp
      have "list_all Q ?d"
        using less.prems(1) Cons set_dropWhileD [of _ isWhitespaceRuleClass cs]
        by (auto simp: list_all_iff)
      with less.hyps [OF len] less.prems(2) True Cons show ?thesis
        by (simp add: collapse_space)
    qed
  qed
qed

lemma wsNormal_suffix: "wsNormal (xs @ ys) \<Longrightarrow> wsNormal ys"
proof (induction xs)
  case Nil
  then show ?case by simp
next
  case (Cons x xs)
  then show ?case by (cases "xs @ ys") auto
qed

lemma wsNormal_prefix: "wsNormal (xs @ ys) \<Longrightarrow> wsNormal xs"
proof (induction xs rule: wsNormal.induct)
  case 1
  then show ?case by simp
next
  case (2 c)
  then show ?case by (cases ys) (auto split: if_splits)
next
  case (3 c d t)
  then show ?case by (auto split: if_splits)
qed

lemma trimEnd_prefix: "\<exists>w. s = trimEnd s @ w"
proof -
  have "rev s = takeWhile isSpaceClass (rev s) @ dropWhile isSpaceClass (rev s)"
    by simp
  then have "s = rev (dropWhile isSpaceClass (rev s)) @ rev (takeWhile isSpaceClass (rev s))"
    by (metis rev_append rev_rev_ident)
  then show ?thesis unfolding trimEnd_def by blast
qed

lemma trimStart_suffix: "\<exists>w. s = w @ trimStart s"
  unfolding trimStart_def by (metis takeWhile_dropWhile_id)

lemma trim_all: "list_all Q s \<Longrightarrow> list_all Q (trim s)"
proof -
  assume a: "list_all Q s"
  obtain w where "s = w @ trimStart s" using trimStart_suffix by blast
  with a have b: "list_all Q (trimStart s)" by (metis list_all_append)
  obtain v where "trimStart s = trim s @ v" unfolding trim_def using trimEnd_prefix by blast
  with b show ?thesis by (metis list_all_append)
qed

lemma trim_normal: "wsNormal s \<Longrightarrow> wsNormal (trim s)"
proof -
  assume a: "wsNormal s"
  obtain w where "s = w @ trimStart s" using trimStart_suffix by blast
  with a have b: "wsNormal (trimStart s)" by (metis wsNormal_suffix)
  obtain v where "trimStart s = trim s @ v" unfolding trim_def using trimEnd_prefix by blast
  with b show ?thesis by (metis wsNormal_prefix)
qed

lemma trimStart_trimEnd:
  assumes "u = [] \<or> \<not> isSpaceClass (hd u)"
  shows "trimStart (trimEnd u) = trimEnd u"
proof (cases "trimEnd u")
  case Nil
  then show ?thesis by (simp add: trimStart_def)
next
  case (Cons a as)
  obtain w where w: "u = trimEnd u @ w" using trimEnd_prefix by blast
  with Cons have "hd u = a" by (metis append_Cons list.sel(1))
  moreover from w Cons have "u \<noteq> []" by auto
  ultimately have "\<not> isSpaceClass a" using assms by auto
  with Cons show ?thesis by (simp add: trimStart_def)
qed

lemma trimEnd_idem: "trimEnd (trimEnd u) = trimEnd u"
  by (simp add: trimEnd_def dropWhile_idem)

lemma trim_idem: "trim (trim s) = trim s"
proof -
  have "trimStart s = [] \<or> \<not> isSpaceClass (hd (trimStart s))"
    unfolding trimStart_def using hd_dropWhile [of isSpaceClass s] by blast
  then have "trimStart (trimEnd (trimStart s)) = trimEnd (trimStart s)"
    by (rule trimStart_trimEnd)
  then show ?thesis
    by (simp add: trim_def trimEnd_idem)
qed

text \<open>
  Claim C7: on a converter that holds the built-in rules alone, \<^verbatim>\<open>_postProcessText\<close>
  applied twice gives what it gives applied once, for every text.
\<close>

theorem normalize_idempotent:
  assumes "defaultPostProcessRules this = builtinRules" "customPostProcessRules this = []"
  shows "postProcessText this (postProcessText this text []) [] = postProcessText this text []"
proof (cases "text = []")
  case True
  then show ?thesis by (simp add: postProcessText_def)
next
  case False
  define u where "u = foldl applyRule text charRules"
  define t where "t = trim (replaceRegExp whitespaceRun [0x20] [] u)"
  have once: "postProcessText this text [] = t"
    using False assms
    by (simp add: postProcessText_def builtinRules_split applyRule_whitespaceRule t_def u_def)
  have clean: "list_all (\<lambda>c. \<not> isBuiltinTarget c) t"
    unfolding t_def u_def
    by (intro trim_all collapse_all charRules_clean) (simp add: isBuiltinTarget_def isBullet_def)
  have normal: "wsNormal t"
    unfolding t_def by (intro trim_normal collapse_normal)
  have "postProcessText this t [] = t"
  proof (cases "t = []")
    case True
    then show ?thesis by (simp add: postProcessText_def)
  next
    case nonempty: False
    have "trim (replaceRegExp whitespaceRun [0x20] [] (foldl applyRule t charRules)) = trim t"
      by (simp add: charRules_id [OF clean] collapse_id [OF normal])
    also have "\<dots> = t"
      unfolding t_def by (rule trim_idem)
    finally show ?thesis
      using nonempty assms
      by (simp add: postProcessText_def builtinRules_split applyRule_whitespaceRule)
  qed
  with once show ?thesis by simp
qed

theorem normalize_idempotent_witness:
  "defaultPostProcessRules defaultConverter = builtinRules \<and>
   customPostProcessRules defaultConverter = [] \<and>
   postProcessText defaultConverter
     (postProcessText defaultConverter [0x20, 0x61, 0x0A, 0x0A, 0xFB01, 0x62, 0x20] []) []
     = postProcessText defaultConverter [0x20, 0x61, 0x0A, 0x0A, 0xFB01, 0x62, 0x20] [] \<and>
   postProcessText defaultConverter [0x20, 0x61, 0x0A, 0x0A, 0xFB01, 0x62, 0x20] [] = js ''a fib''"
proof -
  have h1: "defaultPostProcessRules defaultConverter = builtinRules"
    by (simp add: defaultConverter_def newConverter_def noOptions_def)
  have h2: "customPostProcessRules defaultConverter = []"
    by (simp add: defaultConverter_def newConverter_def noOptions_def)
  have "postProcessText defaultConverter [0x20, 0x61, 0x0A, 0x0A, 0xFB01, 0x62, 0x20] [] = js ''a fib''"
    by code_simp
  with h1 h2 normalize_idempotent [OF h1 h2, of "[0x20, 0x61, 0x0A, 0x0A, 0xFB01, 0x62, 0x20]"]
  show ?thesis by (intro conjI)
qed

section \<open>The order of the rules, and what one rule replaces\<close>

lemma replaceRegExp_skip:
  assumes "noMatchIn (atoms re) u t"
  shows "replaceRegExp re repl pre (u @ t) = u @ replaceRegExp re repl (pre @ u) t"
  using assms
proof (induction u arbitrary: pre)
  case Nil
  show ?case by simp
next
  case (Cons c u)
  then have "replaceRegExp re repl pre ((c # u) @ t) = c # replaceRegExp re repl (pre @ [c]) (u @ t)"
    by (subst replaceRegExp.simps) simp
  with Cons show ?case by simp
qed

lemma replaceRegExp_leftmost:
  assumes "global re" "noMatchIn (atoms re) u t"
    "matchAtoms (atoms re) t = Some (pieces, rest)" "concat pieces \<noteq> []"
  shows "replaceRegExp re repl pre (u @ t)
     = u @ getSubstitution (concat pieces) (pre @ u) rest (map (capture pieces) (groups re)) repl
         @ replaceRegExp re repl (pre @ u @ concat pieces) rest"
proof -
  have "replaceRegExp re repl (pre @ u) t
     = getSubstitution (concat pieces) (pre @ u) rest (map (capture pieces) (groups re)) repl
         @ replaceRegExp re repl ((pre @ u) @ concat pieces) rest"
    using assms(1,3,4) by (subst replaceRegExp.simps) auto
  then show ?thesis
    by (simp add: replaceRegExp_skip [OF assms(2)])
qed

lemma replaceRegExp_first_only:
  assumes "\<not> global re" "noMatchIn (atoms re) u t" "matchAtoms (atoms re) t = Some (pieces, rest)"
  shows "replaceRegExp re repl pre (u @ t)
     = u @ getSubstitution (concat pieces) (pre @ u) rest (map (capture pieces) (groups re)) repl
         @ rest"
proof -
  have "replaceRegExp re repl (pre @ u) t
     = getSubstitution (concat pieces) (pre @ u) rest (map (capture pieces) (groups re)) repl
         @ rest"
    using assms(1,3) by (subst replaceRegExp.simps) auto
  then show ?thesis
    by (simp add: replaceRegExp_skip [OF assms(2)])
qed

lemma replaceRegExp_no_match:
  assumes "global re" "noMatchIn (atoms re) u []" "matchAtoms (atoms re) [] = None"
  shows "replaceRegExp re repl pre u = u"
proof -
  have "replaceRegExp re repl (pre @ u) [] = []"
    using assms(3) by (subst replaceRegExp.simps) simp
  with replaceRegExp_skip [OF assms(2), of repl pre] show ?thesis by simp
qed

lemma replaceString_first:
  assumes "p \<noteq> []" "noOccurrenceIn p u (p @ v)"
  shows "replaceString p repl pre (u @ p @ v) = u @ getSubstitution p (pre @ u) v [] repl @ v"
  using assms(2)
proof (induction u arbitrary: pre)
  case Nil
  with assms(1) show ?case by (cases p) simp_all
next
  case (Cons c u)
  then show ?case by simp
qed

text \<open>
  Claim C2, as stated, fails for a rule whose \<^verbatim>\<open>find\<close> is a plain string:
  \<^verbatim>\<open>String.prototype.replace\<close> then replaces the first occurrence alone. On \<^verbatim>\<open>aa\<close> the
  rule \<^verbatim>\<open>{find: 'a', replace: 'b'}\<close> leaves an \<^verbatim>\<open>a\<close>; the rule with \<^verbatim>\<open>/a/g\<close> does not.
\<close>

theorem string_rule_first_occurrence_counterexample:
  "postProcessText defaultConverter (js ''aa'') [stringRule ''a'' ''b''] = js ''ba'' \<and>
   postProcessText defaultConverter (js ''aa'') [regExpRule letterA (js ''b'')] = js ''bb''"
  by code_simp

text \<open>
  Claim C2, amended. The rules run in the order of the applied list (default rules, rules
  of the constructor, rules of the call), each on the text the rules before it have
  left. A rule whose \<^verbatim>\<open>find\<close> is a regular expression with the \<^verbatim>\<open>g\<close> flag replaces the
  leftmost match and goes on through all the text behind it, and leaves a text without a
  match as it is; one without the flag, and one whose \<^verbatim>\<open>find\<close> is a plain string,
  replaces the first match or occurrence and nothing behind it.
\<close>

theorem rules_applied_in_sequence:
  "(input \<noteq> [] \<and>
    defaultPostProcessRules this @ customPostProcessRules this @ additionalRules
      = earlier @ rule # later
    \<longrightarrow> postProcessText this input additionalRules
          = trim (foldl applyRule (applyRule (foldl applyRule input earlier) rule) later)) \<and>
   (global re \<and> noMatchIn (atoms re) u t \<and> matchAtoms (atoms re) t = Some (pieces, rest) \<and>
    concat pieces \<noteq> []
    \<longrightarrow> applyRule (u @ t) (regExpRule re repl)
          = u @ getSubstitution (concat pieces) u rest (map (capture pieces) (groups re)) repl
              @ replaceRegExp re repl (u @ concat pieces) rest) \<and>
   (global re \<and> noMatchIn (atoms re) u [] \<and> matchAtoms (atoms re) [] = None
    \<longrightarrow> applyRule u (regExpRule re repl) = u) \<and>
   (\<not> global re \<and> noMatchIn (atoms re) u t \<and> matchAtoms (atoms re) t = Some (pieces, rest)
    \<longrightarrow> applyRule (u @ t) (regExpRule re repl)
          = u @ getSubstitution (concat pieces) u rest (map (capture pieces) (groups re)) repl
              @ rest) \<and>
   (p \<noteq> [] \<and> noOccurrenceIn p u (p @ v)
    \<longrightarrow> applyRule (u @ p @ v) \<lparr>rule_find = FindString p, rule_replace = ReplaceString repl\<rparr>
          = u @ getSubstitution p u v [] repl @ v)"
proof (intro conjI impI)
  assume "input \<noteq> [] \<and>
    defaultPostProcessRules this @ customPostProcessRules this @ additionalRules
      = earlier @ rule # later"
  then show "postProcessText this input additionalRules
      = trim (foldl applyRule (applyRule (foldl applyRule input earlier) rule) later)"
    by (simp add: postProcessText_def)
next
  assume "global re \<and> noMatchIn (atoms re) u t \<and> matchAtoms (atoms re) t = Some (pieces, rest) \<and>
    concat pieces \<noteq> []"
  then show "applyRule (u @ t) (regExpRule re repl)
      = u @ getSubstitution (concat pieces) u rest (map (capture pieces) (groups re)) repl
          @ replaceRegExp re repl (u @ concat pieces) rest"
    using replaceRegExp_leftmost [of re u t pieces rest repl "[]"]
    by (simp add: applyRule_def regExpRule_def)
next
  assume "global re \<and> noMatchIn (atoms re) u [] \<and> matchAtoms (atoms re) [] = None"
  then show "applyRule u (regExpRule re repl) = u"
    using replaceRegExp_no_match [of re u repl "[]"]
    by (simp add: applyRule_def regExpRule_def)
next
  assume "\<not> global re \<and> noMatchIn (atoms re) u t \<and> matchAtoms (atoms re) t = Some (pieces, rest)"
  then show "applyRule (u @ t) (regExpRule re repl)
      = u @ getSubstitution (concat pieces) u rest (map (capture pieces) (groups re)) repl
          @ rest"
    using replaceRegExp_first_only [of re u t pieces rest repl "[]"]
    by (simp add: applyRule_def regExpRule_def)
next
  assume "p \<noteq> [] \<and> noOccurrenceIn p u (p @ v)"
  then show "applyRule (u @ p @ v) \<lparr>rule_find = FindString p, rule_replace = ReplaceString repl\<rparr>
      = u @ getSubstitution p u v [] repl @ v"
    using replaceString_first [of p u v repl "[]"]
    by (simp add: applyRule_def)
qed

theorem rules_applied_in_sequence_witness:
  "js ''aa'' \<noteq> [] \<and>
   defaultPostProcessRules defaultConverter @ customPostProcessRules defaultConverter
       @ [stringRule ''a'' ''b'', regExpRule letterA (js ''c'')]
     = (builtinRules @ [stringRule ''a'' ''b'']) @ regExpRule letterA (js ''c'') # [] \<and>
   postProcessText defaultConverter (js ''aa'') [stringRule ''a'' ''b'', regExpRule letterA (js ''c'')]
     = trim (foldl applyRule
              (applyRule (foldl applyRule (js ''aa'') (builtinRules @ [stringRule ''a'' ''b'']))
                 (regExpRule letterA (js ''c''))) []) \<and>
   postProcessText defaultConverter (js ''aa'') [stringRule ''a'' ''b'', regExpRule letterA (js ''c'')]
     = js ''bc'' \<and>
   global letterA \<and> noMatchIn (atoms letterA) (js ''x'') (js ''aya'') \<and>
   matchAtoms (atoms letterA) (js ''aya'') = Some ([js ''a''], js ''ya'') \<and>
   concat [js ''a''] \<noteq> [] \<and>
   applyRule (js ''x'' @ js ''aya'') (regExpRule letterA (js ''b''))
     = js ''x'' @ getSubstitution (concat [js ''a'']) (js ''x'') (js ''ya'')
                   (map (capture [js ''a'']) (groups letterA)) (js ''b'')
         @ replaceRegExp letterA (js ''b'') (js ''x'' @ concat [js ''a'']) (js ''ya'') \<and>
   applyRule (js ''x'' @ js ''aya'') (regExpRule letterA (js ''b'')) = js ''xbyb'' \<and>
   noMatchIn (atoms letterA) (js ''x'') [] \<and> matchAtoms (atoms letterA) [] = None \<and>
   applyRule (js ''x'') (regExpRule letterA (js ''b'')) = js ''x'' \<and>
   js ''a'' \<noteq> [] \<and> noOccurrenceIn (js ''a'') (js ''x'') (js ''a'' @ js ''ya'') \<and>
   applyRule (js ''x'' @ js ''a'' @ js ''ya'') (stringRule ''a'' ''b'')
     = js ''x'' @ getSubstitution (js ''a'') (js ''x'') (js ''ya'') [] (js ''b'') @ js ''ya'' \<and>
   applyRule (js ''x'' @ js ''a'' @ js ''ya'') (stringRule ''a'' ''b'') = js ''xbya''"
proof -
  note T = rules_applied_in_sequence [where input = "js ''aa''" and this = defaultConverter
      and additionalRules = "[stringRule ''a'' ''b'', regExpRule letterA (js ''c'')]"
      and earlier = "builtinRules @ [stringRule ''a'' ''b'']"
      and rule = "regExpRule letterA (js ''c'')" and later = "[]"
      and re = letterA and u = "js ''x''" and t = "js ''aya''" and pieces = "[js ''a'']"
      and rest = "js ''ya''" and repl = "js ''b''" and p = "js ''a''" and v = "js ''ya''"]
  have a1: "js ''aa'' \<noteq> []" by (simp add: js_def)
  have a2: "defaultPostProcessRules defaultConverter @ customPostProcessRules defaultConverter
       @ [stringRule ''a'' ''b'', regExpRule letterA (js ''c'')]
     = (builtinRules @ [stringRule ''a'' ''b'']) @ regExpRule letterA (js ''c'') # []"
    by (simp add: defaultConverter_def newConverter_def noOptions_def)
  have b1: "global letterA" by (simp add: letterA_def)
  have b2: "noMatchIn (atoms letterA) (js ''x'') (js ''aya'')" by code_simp
  have b3: "matchAtoms (atoms letterA) (js ''aya'') = Some ([js ''a''], js ''ya'')" by code_simp
  have b4: "concat [js ''a''] \<noteq> []" by (simp add: js_def)
  have c1: "noMatchIn (atoms letterA) (js ''x'') []" by code_simp
  have c2: "matchAtoms (atoms letterA) [] = None" by code_simp
  have d1: "js ''a'' \<noteq> []" by (simp add: js_def)
  have d2: "noOccurrenceIn (js ''a'') (js ''x'') (js ''a'' @ js ''ya'')" by code_simp
  have e1: "postProcessText defaultConverter (js ''aa'')
      [stringRule ''a'' ''b'', regExpRule letterA (js ''c'')] = js ''bc''"
    by code_simp
  have e2: "applyRule (js ''x'' @ js ''aya'') (regExpRule letterA (js ''b'')) = js ''xbyb''"
    by code_simp
  have e3: "applyRule (js ''x'' @ js ''a'' @ js ''ya'') (stringRule ''a'' ''b'') = js ''xbya''"
    by code_simp
  have t3: "applyRule (js ''x'') (regExpRule letterA (js ''b'')) = js ''x''"
    using T b1 c1 c2 by blast
  have t1: "postProcessText defaultConverter (js ''aa'') [stringRule ''a'' ''b'', regExpRule letterA (js ''c'')]
     = trim (foldl applyRule
              (applyRule (foldl applyRule (js ''aa'') (builtinRules @ [stringRule ''a'' ''b'']))
                 (regExpRule letterA (js ''c''))) [])"
    using T a1 a2 by blast
  have t2: "applyRule (js ''x'' @ js ''aya'') (regExpRule letterA (js ''b''))
     = js ''x'' @ getSubstitution (concat [js ''a'']) (js ''x'') (js ''ya'')
                   (map (capture [js ''a'']) (groups letterA)) (js ''b'')
         @ replaceRegExp letterA (js ''b'') (js ''x'' @ concat [js ''a'']) (js ''ya'')"
    using T b1 b2 b3 b4 by blast
  have t4: "applyRule (js ''x'' @ js ''a'' @ js ''ya'')
        \<lparr>rule_find = FindString (js ''a''), rule_replace = ReplaceString (js ''b'')\<rparr>
     = js ''x'' @ getSubstitution (js ''a'') (js ''x'') (js ''ya'') [] (js ''b'') @ js ''ya''"
    using T d1 d2 by blast
  from a1 a2 t1 e1 b1 b2 b3 b4 t2 e2 c1 c2 t3 d1 d2 t4 e3 show ?thesis
    unfolding stringRule_def by (intro conjI)
qed

section \<open>The camelCase/PascalCase rules\<close>

text \<open>
  Claim C6, as stated, fails: the constructor pushes the three split rules onto the
  default list, so they run before the rules of the caller. With a caller's rule that
  deletes underscores, \<^verbatim>\<open>foo_Bar\<close> comes out as \<^verbatim>\<open>fooBar\<close>; in the claimed order it would
  come out as \<^verbatim>\<open>foo Bar\<close>.
\<close>

theorem split_rules_last_counterexample:
  "postProcessText (splittingConverter [underscoreRule]) (js ''foo_Bar'') [] = js ''fooBar'' \<and>
   claimedOrderPostProcessText True [underscoreRule] [] (js ''foo_Bar'') = js ''foo Bar''"
  by code_simp

text \<open>
  Claim C6, amended. With \<^verbatim>\<open>splitPascalCase\<close> set, normalization applies the built-in
  rules, then the three split rules, then the rules of the constructor and of the call.
  The split rules are the pair rule, the lower-to-capitalized rule and the pair rule
  again: on \<^verbatim>\<open>AbcDefGhi\<close> the first pass gives \<^verbatim>\<open>Abc DefGhi\<close> and the second
  \<^verbatim>\<open>Abc Def Ghi\<close>.
\<close>

theorem split_rules_follow_builtin:
  "(input \<noteq> [] \<and> opt_splitPascalCase options = Some True
    \<longrightarrow> postProcessText (newConverter createEngineLoaded chatLoaded options) input additionalRules
          = trim (foldl applyRule
                   (foldl applyRule (foldl applyRule input builtinRules) splitPascalCaseRules)
                   ((case opt_postProcessRules options of None \<Rightarrow> [] | Some rs \<Rightarrow> rs)
                      @ additionalRules))) \<and>
   splitPascalCaseRules = [pascalPairRule, camelRule, pascalPairRule] \<and>
   foldl applyRule (js ''AbcDefGhi'') [pascalPairRule] = js ''Abc DefGhi'' \<and>
   foldl applyRule (js ''AbcDefGhi'') [pascalPairRule, camelRule] = js ''Abc Def Ghi'' \<and>
   postProcessText (splittingConverter []) (js ''AbcDefGhi'') [] = js ''Abc Def Ghi'' \<and>
   postProcessText (splittingConverter []) (js ''someText'') [] = js ''some Text''"
proof (intro conjI impI)
  assume "input \<noteq> [] \<and> opt_splitPascalCase options = Some True"
  then show "postProcessText (newConverter createEngineLoaded chatLoaded options) input additionalRules
      = trim (foldl applyRule
               (foldl applyRule (foldl applyRule input builtinRules) splitPascalCaseRules)
               ((case opt_postProcessRules options of None \<Rightarrow> [] | Some rs \<Rightarrow> rs)
                  @ additionalRules))"
    by (simp add: postProcessText_def newConverter_def)
next
  show "splitPascalCaseRules = [pascalPairRule, camelRule, pascalPairRule]"
    by (simp add: splitPascalCaseRules_def)
next
  show "foldl applyRule (js ''AbcDefGhi'') [pascalPairRule] = js ''Abc DefGhi''"
    by code_simp
next
  show "foldl applyRule (js ''AbcDefGhi'') [pascalPairRule, camelRule] = js ''Abc Def Ghi''"
    by code_simp
next
  show "postProcessText (splittingConverter []) (js ''AbcDefGhi'') [] = js ''Abc Def Ghi''"
    by code_simp
next
  show "postProcessText (splittingConverter []) (js ''someText'') [] = js ''some Text''"
    by code_simp
qed

theorem split_rules_follow_builtin_witness:
  "js ''foo_Bar'' \<noteq> [] \<and>
   opt_splitPascalCase
     (noOptions\<lparr>opt_splitPascalCase := Some True, opt_postProcessRules := Some [underscoreRule]\<rparr>)
     = Some True \<and>
   postProcessText (splittingConverter [underscoreRule]) (js ''foo_Bar'') []
     = trim (foldl applyRule
              (foldl applyRule (foldl applyRule (js ''foo_Bar'') builtinRules) splitPascalCaseRules)
              ([underscoreRule] @ [])) \<and>
   postProcessText (splittingConverter [underscoreRule]) (js ''foo_Bar'') [] = js ''fooBar''"
proof -
  have a: "js ''foo_Bar'' \<noteq> []" by (simp add: js_def)
  have b: "opt_splitPascalCase
     (noOptions\<lparr>opt_splitPascalCase := Some True, opt_postProcessRules := Some [underscoreRule]\<rparr>)
     = Some True"
    by simp
  have c: "postProcessText (splittingConverter [underscoreRule]) (js ''foo_Bar'') [] = js ''fooBar''"
    by code_simp
  have "postProcessText (splittingConverter [underscoreRule]) (js ''foo_Bar'') []
     = trim (foldl applyRule
              (foldl applyRule (foldl applyRule (js ''foo_Bar'') builtinRules) splitPascalCaseRules)
              ([underscoreRule] @ []))"
    using split_rules_follow_builtin [where input = "js ''foo_Bar''" and createEngineLoaded = True
        and chatLoaded = True and additionalRules = "[]"
        and options = "noOptions\<lparr>opt_splitPascalCase := Some True,
                                  opt_postProcessRules := Some [underscoreRule]\<rparr>"] a b
    by (simp add: splittingConverter_def)
  with a b c show ?thesis by (intro conjI)
qed

section \<open>The lines of \<^verbatim>\<open>_convertToMarkdownLogic\<close>\<close>

lemma trimEnd_Nil_iff: "trimEnd s = [] \<longleftrightarrow> \<not> nonBlank s"
  by (simp add: trimEnd_def nonBlank_def dropWhile_eq_Nil_conv list_ex_iff)

lemma nonBlank_trimStart: "nonBlank (trimStart s) = nonBlank s"
proof -
  have "s = takeWhile isSpaceClass s @ trimStart s"
    by (simp add: trimStart_def)
  then have "nonBlank s = (nonBlank (takeWhile isSpaceClass s) \<or> nonBlank (trimStart s))"
    unfolding nonBlank_def by (metis list_ex_append)
  moreover have "\<not> nonBlank (takeWhile isSpaceClass s)"
    by (auto simp: nonBlank_def list_ex_iff dest: set_takeWhileD)
  ultimately show ?thesis by simp
qed

lemma nonBlank_rev: "nonBlank (rev s) = nonBlank s"
  by (simp add: nonBlank_def list_ex_iff)

lemma nonBlank_trimEnd: "nonBlank (trimEnd s) = nonBlank s"
  using nonBlank_trimStart [of "rev s"]
  by (simp add: trimEnd_def trimStart_def nonBlank_rev)

lemma nonBlank_trim: "nonBlank (trim s) = nonBlank s"
  by (simp add: trim_def nonBlank_trimEnd nonBlank_trimStart)

lemma trim_Nil_iff: "trim s = [] \<longleftrightarrow> \<not> nonBlank s"
  by (simp add: trim_def trimEnd_Nil_iff nonBlank_trimStart)

lemma regexpTest_first:
  "regexpTest (Atom cls Once # as) s \<Longrightarrow> list_ex cls s"
  by (induction s) (auto split: if_splits)

lemma tabular_nonBlank: "hasMultipleSpacesBetweenWords l \<Longrightarrow> nonBlank l"
  unfolding hasMultipleSpacesBetweenWords_def nonBlank_def
  by (rule regexpTest_first)

lemma splitLinesFrom_line:
  "LF \<notin> set l \<Longrightarrow> splitLinesFrom cur l = [cur @ l]"
  by (induction l arbitrary: cur) auto

lemma splitLinesFrom_break:
  "LF \<notin> set l \<Longrightarrow> splitLinesFrom cur (l @ LF # r) = (cur @ l) # splitLinesFrom [] r"
  by (induction l arbitrary: cur) auto

lemma flushPending_fields:
  "currentParagraphCollector (flushPending st) = []"
  "inPotentialTableBlock (flushPending st) = False"
  by (simp_all add: flushPending_def flushCurrentParagraph_def flushPotentialTableBlock_def)

lemma flushPending_idle:
  "currentParagraphCollector st = [] \<Longrightarrow> \<not> inPotentialTableBlock st \<Longrightarrow> flushPending st = st"
  by (simp add: flushPending_def flushCurrentParagraph_def)

lemma processLine_blank:
  "trim (inputLines ! i) = [] \<Longrightarrow> processLine inputLines i st = (i, flushPending st)"
  by (simp add: processLine_def flushPending_def)

lemma heading_not_blank: "isHeadingLine inputLines i \<Longrightarrow> trim (inputLines ! i) \<noteq> []"
  by (auto simp: isHeadingLine_def isAllCapsLine_def)

lemma processLine_heading:
  assumes "isHeadingLine inputLines i"
  shows "processLine inputLines i st =
     (if i + 1 < length inputLines \<and> inputLines ! (i + 1) \<noteq> [] \<and> trim (inputLines ! (i + 1)) = []
      then i + 1 else i,
      (flushPending st)\<lparr>markdownOutputLines :=
          markdownOutputLines (flushPending st) @ blockLines (Heading (trim (inputLines ! i)))\<rparr>)"
  using assms heading_not_blank [OF assms]
  by (auto simp: processLine_def flushPending_def Let_def nextLineIsBlankOrEndOfFile_def)

lemma heading_then_blank:
  assumes "i + 1 < length inputLines" "isHeadingLine inputLines i"
    "trim (inputLines ! (i + 1)) = []"
  shows "convertLoop inputLines i st
     = convertLoop inputLines (i + 2)
         ((flushPending st)\<lparr>markdownOutputLines :=
            markdownOutputLines (flushPending st) @ blockLines (Heading (trim (inputLines ! i)))\<rparr>)"
proof -
  let ?st = "(flushPending st)\<lparr>markdownOutputLines :=
            markdownOutputLines (flushPending st) @ blockLines (Heading (trim (inputLines ! i)))\<rparr>"
  have idle: "flushPending ?st = ?st"
    by (rule flushPending_idle) (simp_all add: flushPending_fields)
  show ?thesis
  proof (cases "inputLines ! (i + 1) = []")
    case True
    have "convertLoop inputLines i st = convertLoop inputLines (i + 1) ?st"
      using assms True by (subst convertLoop.simps) (simp add: processLine_heading)
    also have "\<dots> = convertLoop inputLines (i + 2) ?st"
      using assms idle by (subst convertLoop.simps) (simp add: processLine_blank)
    finally show ?thesis .
  next
    case False
    then show ?thesis
      using assms by (subst convertLoop.simps) (simp add: processLine_heading)
  qed
qed

lemma processLine_tabular:
  assumes "nonBlank (inputLines ! i)" "\<not> isHeadingLine inputLines i"
    "hasMultipleSpacesBetweenWords (inputLines ! i) \<or> hasMultipleColumnsBySpaces (inputLines ! i)"
  shows "processLine inputLines i st =
     (i, (flushCurrentParagraph st)\<lparr>inPotentialTableBlock := True,
            potentialTableBlockLines :=
              potentialTableBlockLines (flushCurrentParagraph st) @ [inputLines ! i]\<rparr>)"
  using assms by (auto simp: processLine_def Let_def trim_Nil_iff)

lemma processLine_plain:
  assumes "nonBlank (inputLines ! i)" "\<not> isHeadingLine inputLines i"
    "\<not> hasMultipleSpacesBetweenWords (inputLines ! i)"
    "\<not> hasMultipleColumnsBySpaces (inputLines ! i)"
  shows "processLine inputLines i st =
     (i, (if inPotentialTableBlock st then flushPotentialTableBlock st else st)
           \<lparr>currentParagraphCollector :=
              currentParagraphCollector
                (if inPotentialTableBlock st then flushPotentialTableBlock st else st)
                @ [trim (inputLines ! i)]\<rparr>)"
  using assms by (auto simp: processLine_def Let_def trim_Nil_iff)

lemma convertLoop_done: "length inputLines \<le> i \<Longrightarrow> convertLoop inputLines i st = st"
  by (subst convertLoop.simps) simp

lemma convertLoop_step:
  "i < length inputLines \<Longrightarrow>
   convertLoop inputLines i st
     = convertLoop inputLines (fst (processLine inputLines i st) + 1)
         (snd (processLine inputLines i st))"
  by (subst convertLoop.simps) simp

lemma two_tabular_lines:
  assumes "LF \<notin> set l1" "LF \<notin> set l2"
    "hasMultipleSpacesBetweenWords l1" "hasMultipleSpacesBetweenWords l2"
    "\<not> isHeadingLine [l1, l2] 0" "\<not> isHeadingLine [l1, l2] 1"
  shows "collectOutputLines (l1 @ LF # l2) = serialize [FencedBlock [trimEnd l1, trimEnd l2]]"
proof -
  have lines: "splitLines (l1 @ LF # l2) = [l1, l2]"
    using assms(1,2) by (simp add: splitLines_def splitLinesFrom_break splitLinesFrom_line)
  have p0: "processLine [l1, l2] 0 initialState =
      (0, initialState\<lparr>inPotentialTableBlock := True, potentialTableBlockLines := [l1]\<rparr>)"
    using assms(3,5) tabular_nonBlank [OF assms(3)]
    by (simp add: processLine_tabular flushCurrentParagraph_def initialState_def)
  have p1: "processLine [l1, l2] (Suc 0)
        (initialState\<lparr>inPotentialTableBlock := True, potentialTableBlockLines := [l1]\<rparr>) =
      (Suc 0, initialState\<lparr>inPotentialTableBlock := True, potentialTableBlockLines := [l1, l2]\<rparr>)"
    using assms(4,6) tabular_nonBlank [OF assms(4)]
    by (simp add: processLine_tabular flushCurrentParagraph_def initialState_def)
  have "convertLoop [l1, l2] 0 initialState
      = convertLoop [l1, l2] (Suc 0)
          (initialState\<lparr>inPotentialTableBlock := True, potentialTableBlockLines := [l1]\<rparr>)"
    using convertLoop_step [of 0 "[l1, l2]" initialState] by (simp add: p0)
  also have "\<dots> = convertLoop [l1, l2] (Suc (Suc 0))
          (initialState\<lparr>inPotentialTableBlock := True, potentialTableBlockLines := [l1, l2]\<rparr>)"
    using convertLoop_step [of "Suc 0" "[l1, l2]"
        "initialState\<lparr>inPotentialTableBlock := True, potentialTableBlockLines := [l1]\<rparr>"]
    by (simp add: p1)
  also have "\<dots> = initialState\<lparr>inPotentialTableBlock := True, potentialTableBlockLines := [l1, l2]\<rparr>"
    by (simp add: convertLoop_done)
  finally show ?thesis
    by (simp add: collectOutputLines_def lines serialize_def flushPotentialTableBlock_def
        flushCurrentParagraph_def initialState_def)
qed

lemma one_tabular_line:
  assumes "LF \<notin> set l" "hasMultipleSpacesBetweenWords l" "\<not> isHeadingLine [l] 0"
  shows "collectOutputLines l = serialize [Paragraph (trim l)]"
proof -
  have lines: "splitLines l = [l]"
    using assms(1) by (simp add: splitLines_def splitLinesFrom_line)
  have p0: "processLine [l] 0 initialState =
      (0, initialState\<lparr>inPotentialTableBlock := True, potentialTableBlockLines := [l]\<rparr>)"
    using assms(2,3) tabular_nonBlank [OF assms(2)]
    by (simp add: processLine_tabular flushCurrentParagraph_def initialState_def)
  have "convertLoop [l] 0 initialState
      = convertLoop [l] (Suc 0)
          (initialState\<lparr>inPotentialTableBlock := True, potentialTableBlockLines := [l]\<rparr>)"
    using convertLoop_step [of 0 "[l]" initialState] by (simp add: p0)
  also have "\<dots> = initialState\<lparr>inPotentialTableBlock := True, potentialTableBlockLines := [l]\<rparr>"
    by (simp add: convertLoop_done)
  finally show ?thesis
    by (simp add: collectOutputLines_def lines serialize_def flushPotentialTableBlock_def
        flushCurrentParagraph_def initialState_def)
qed

lemma set_join: "x \<in> set xs \<Longrightarrow> set x \<subseteq> set (join sep xs)"
  by (induction sep xs rule: join.induct) auto

lemma nonBlank_join: "list_ex nonBlank xs \<Longrightarrow> nonBlank (join sep xs)"
  using set_join [of _ xs sep]
  by (fastforce simp: nonBlank_def list_ex_iff)

lemma nonBlank_fence: "nonBlank fence"
  by (simp add: nonBlank_def fence_def isSpaceClass_def)

lemma flushCurrentParagraph_sound:
  "pendingSound st \<Longrightarrow> pendingSound (flushCurrentParagraph st)"
  by (simp add: pendingSound_def flushCurrentParagraph_def)

lemma flushPotentialTableBlock_sound:
  "pendingSound st \<Longrightarrow> pendingSound (flushPotentialTableBlock st)"
  by (simp add: pendingSound_def flushPotentialTableBlock_def)

lemma list_ex_nonempty_all: "xs \<noteq> [] \<Longrightarrow> list_all P xs \<Longrightarrow> list_ex P xs"
  by (cases xs) auto

lemma flushCurrentParagraph_holds:
  assumes "pendingSound st" "holdsText st"
  shows "holdsText (flushCurrentParagraph st)"
proof (cases "currentParagraphCollector st = []")
  case True
  with assms show ?thesis by (simp add: flushCurrentParagraph_def)
next
  case False
  with assms(1) have "nonBlank (trim (join (js '' '') (currentParagraphCollector st)))"
    by (simp add: nonBlank_trim nonBlank_join list_ex_nonempty_all pendingSound_def)
  with False show ?thesis
    by (simp add: holdsText_def flushCurrentParagraph_def)
qed

lemma flushPotentialTableBlock_holds:
  assumes "pendingSound st" "holdsText st"
  shows "holdsText (flushPotentialTableBlock st)"
proof (cases "potentialTableBlockLines st = []")
  case True
  with assms show ?thesis by (simp add: flushPotentialTableBlock_def holdsText_def)
next
  case False
  with assms(1) have "nonBlank (trim (join (js '' '') (potentialTableBlockLines st)))"
    by (simp add: nonBlank_trim nonBlank_join list_ex_nonempty_all pendingSound_def)
  with False show ?thesis
    by (simp add: holdsText_def flushPotentialTableBlock_def nonBlank_fence)
qed

lemma flushPending_sound: "pendingSound st \<Longrightarrow> pendingSound (flushPending st)"
  by (simp add: flushPending_def flushCurrentParagraph_sound flushPotentialTableBlock_sound)

lemma flushPending_holds: "pendingSound st \<Longrightarrow> holdsText st \<Longrightarrow> holdsText (flushPending st)"
  by (simp add: flushPending_def flushCurrentParagraph_sound flushPotentialTableBlock_sound
      flushCurrentParagraph_holds flushPotentialTableBlock_holds)

lemma flushPending_output:
  assumes "pendingSound st" "holdsText st"
  shows "list_ex nonBlank (markdownOutputLines (flushPending st))"
proof -
  have "holdsText (flushPending st)"
    using assms by (rule flushPending_holds)
  moreover have "currentParagraphCollector (flushPending st) = []"
    by (rule flushPending_fields)
  moreover have "potentialTableBlockLines (flushPending st) = []"
    using assms(1)
    by (auto simp: flushPending_def flushCurrentParagraph_def flushPotentialTableBlock_def
        pendingSound_def)
  ultimately show ?thesis by (simp add: holdsText_def)
qed

lemma processLine_cases:
  obtains (blank) "trim (inputLines ! i) = []"
  | (heading) "isHeadingLine inputLines i"
  | (tabular) "nonBlank (inputLines ! i)" "\<not> isHeadingLine inputLines i"
      "hasMultipleSpacesBetweenWords (inputLines ! i) \<or> hasMultipleColumnsBySpaces (inputLines ! i)"
  | (plain) "nonBlank (inputLines ! i)" "\<not> isHeadingLine inputLines i"
      "\<not> hasMultipleSpacesBetweenWords (inputLines ! i)"
      "\<not> hasMultipleColumnsBySpaces (inputLines ! i)"
  using trim_Nil_iff by blast

lemma processLine_sound:
  assumes "pendingSound st"
  shows "pendingSound (snd (processLine inputLines i st))"
proof (cases inputLines i rule: processLine_cases)
  case blank
  with assms show ?thesis by (simp add: processLine_blank flushPending_sound)
next
  case heading
  with flushPending_sound [OF assms] show ?thesis
    by (simp add: processLine_heading pendingSound_def)
next
  case tabular
  with flushCurrentParagraph_sound [OF assms] show ?thesis
    by (simp add: processLine_tabular pendingSound_def)
next
  case plain
  with assms flushPotentialTableBlock_sound [OF assms] show ?thesis
    by (auto simp: processLine_plain pendingSound_def nonBlank_trim)
qed

lemma processLine_holds:
  assumes "pendingSound st" "holdsText st \<or> nonBlank (inputLines ! i)"
  shows "holdsText (snd (processLine inputLines i st))"
proof (cases inputLines i rule: processLine_cases)
  case blank
  with assms(2) have "holdsText st" by (simp add: trim_Nil_iff)
  with assms(1) blank show ?thesis by (simp add: processLine_blank flushPending_holds)
next
  case heading
  have "nonBlank (js ''# '' @ trim (inputLines ! i))"
    by (simp add: nonBlank_def js_simps isSpaceClass_def)
  with heading show ?thesis
    by (simp add: processLine_heading holdsText_def)
next
  case tabular
  then show ?thesis
    by (simp add: processLine_tabular holdsText_def)
next
  case plain
  then show ?thesis
    by (simp add: processLine_plain holdsText_def)
qed

lemma processLine_skips_blank:
  "fst (processLine inputLines i st) = i \<or>
   (fst (processLine inputLines i st) = i + 1 \<and> \<not> nonBlank (inputLines ! (i + 1)))"
  by (auto simp: processLine_def Let_def trim_Nil_iff)

lemma convertLoop_holds:
  assumes "pendingSound st"
    "holdsText st \<or> (\<exists>j. i \<le> j \<and> j < length inputLines \<and> nonBlank (inputLines ! j))"
  shows "pendingSound (convertLoop inputLines i st) \<and> holdsText (convertLoop inputLines i st)"
  using assms
proof (induction inputLines i st rule: convertLoop.induct)
  case (1 inputLines i st)
  show ?case
  proof (cases "i < length inputLines")
    case False
    with "1.prems" show ?thesis by (auto simp: convertLoop_done)
  next
    case True
    let ?i' = "fst (processLine inputLines i st)"
    let ?st' = "snd (processLine inputLines i st)"
    have sound: "pendingSound ?st'"
      using "1.prems"(1) by (rule processLine_sound)
    have "holdsText ?st' \<or> (\<exists>j. ?i' + 1 \<le> j \<and> j < length inputLines \<and> nonBlank (inputLines ! j))"
    proof (cases "holdsText st \<or> nonBlank (inputLines ! i)")
      case True
      with "1.prems"(1) show ?thesis by (simp add: processLine_holds)
    next
      case False
      with "1.prems"(2) obtain j where j: "i \<le> j" "j < length inputLines" "nonBlank (inputLines ! j)"
        by blast
      with False have "i < j" by (cases "i = j") auto
      with j processLine_skips_blank [of inputLines i st] have "?i' + 1 \<le> j"
        by (cases "j = i + 1") auto
      with j show ?thesis by blast
    qed
    with "1.IH" [OF True sound] show ?thesis
      using True by (simp add: convertLoop_step)
  qed
qed

lemma splitLinesFrom_nonBlank:
  "nonBlank cur \<or> nonBlank s \<Longrightarrow> list_ex nonBlank (splitLinesFrom cur s)"
proof (induction s arbitrary: cur)
  case Nil
  then show ?case by (simp add: nonBlank_def)
next
  case (Cons c cs)
  show ?case
  proof (cases "c = LF")
    case True
    with Cons.prems have "nonBlank cur \<or> nonBlank cs"
      by (auto simp: nonBlank_def LF_def isSpaceClass_def)
    with True Cons.IH [of "[]"] show ?thesis by auto
  next
    case False
    from Cons.prems have "nonBlank (cur @ [c]) \<or> nonBlank cs"
      by (auto simp: nonBlank_def)
    with False Cons.IH [of "cur @ [c]"] show ?thesis by simp
  qed
qed

lemma splitLines_nonBlank:
  assumes "nonBlank rawText"
  shows "\<exists>j. 0 \<le> j \<and> j < length (splitLines rawText) \<and> nonBlank (splitLines rawText ! j)"
proof -
  have "list_ex nonBlank (splitLines rawText)"
    using assms by (simp add: splitLines_def splitLinesFrom_nonBlank)
  then show ?thesis
    by (auto simp: list_ex_iff in_set_conv_nth)
qed

lemma initialState_sound: "pendingSound initialState"
  by (simp add: pendingSound_def initialState_def)

lemma collectOutputLines_nonBlank:
  assumes "nonBlank rawText"
  shows "list_ex nonBlank (collectOutputLines rawText)"
proof -
  let ?st = "convertLoop (splitLines rawText) 0 initialState"
  have "pendingSound ?st \<and> holdsText ?st"
    using initialState_sound splitLines_nonBlank [OF assms]
    by (intro convertLoop_holds) auto
  then have "list_ex nonBlank (markdownOutputLines (flushPending ?st))"
    by (simp add: flushPending_output)
  then show ?thesis
    by (simp add: collectOutputLines_def flushPending_def Let_def)
qed

lemma newlineRun3_keeps:
  "x \<in> set s \<Longrightarrow> x \<noteq> LF \<Longrightarrow> x \<in> set (replaceRegExp newlineRun3 [LF, LF] pre s)"
proof (induction "length s" arbitrary: s pre rule: less_induct)
  case less
  have dollar: "0x24 \<notin> set [LF, LF]" by (simp add: LF_def)
  show ?case
  proof (cases s)
    case Nil
    with less.prems show ?thesis by simp
  next
    case (Cons c cs)
    show ?thesis
    proof (cases "3 \<le> length (takeWhile (\<lambda>c. c = LF) s)")
      case True
      let ?d = "dropWhile (\<lambda>c. c = LF) s"
      have eq: "replaceRegExp newlineRun3 [LF, LF] pre s
          = [LF, LF] @ replaceRegExp newlineRun3 [LF, LF] (pre @ takeWhile (\<lambda>c. c = LF) s) ?d"
        unfolding newlineRun3_def
        using True Cons by (subst replaceRegExp_run [OF dollar]) simp_all
      have "length s = length (takeWhile (\<lambda>c. c = LF) s) + length ?d"
        by (metis length_append takeWhile_dropWhile_id)
      with True have len: "length ?d < length s" by linarith
      have "set s = set (takeWhile (\<lambda>c. c = LF) s) \<union> set ?d"
        by (metis set_append takeWhile_dropWhile_id)
      with less.prems have "x \<in> set ?d"
        by (auto dest: set_takeWhileD)
      from less.hyps [OF len this less.prems(2)] eq show ?thesis by simp
    next
      case False
      have eq: "replaceRegExp newlineRun3 [LF, LF] pre s
          = c # replaceRegExp newlineRun3 [LF, LF] (pre @ [c]) cs"
        unfolding newlineRun3_def
        using False Cons by (subst replaceRegExp_run [OF dollar]) simp_all
      show ?thesis
      proof (cases "x = c")
        case True
        with eq show ?thesis by simp
      next
        case False
        with less.prems Cons have "x \<in> set cs" by simp
        with less.hyps [of cs] less.prems(2) Cons eq show ?thesis by simp
      qed
    qed
  qed
qed

lemma newlineRun3_nonBlank:
  assumes "nonBlank s"
  shows "nonBlank (replaceRegExp newlineRun3 [LF, LF] pre s)"
proof -
  from assms obtain x where x: "x \<in> set s" "\<not> isSpaceClass x"
    by (auto simp: nonBlank_def list_ex_iff)
  then have "x \<noteq> LF" by (auto simp: isSpaceClass_def LF_def)
  with x have "x \<in> set (replaceRegExp newlineRun3 [LF, LF] pre s)"
    by (simp add: newlineRun3_keeps)
  with x show ?thesis by (auto simp: nonBlank_def list_ex_iff)
qed

lemma invoice_caps: "isAllCapsLine (js ''INVOICE'')"
  by code_simp

lemma two_tabular_lines_in_loop:
  assumes "i + 1 < length inputLines" "potentialTableBlockLines st = []"
    "hasMultipleSpacesBetweenWords (inputLines ! i)" "\<not> isHeadingLine inputLines i"
    "hasMultipleSpacesBetweenWords (inputLines ! (i + 1))" "\<not> isHeadingLine inputLines (i + 1)"
  shows "convertLoop inputLines i st
     = convertLoop inputLines (i + 2)
         ((flushCurrentParagraph st)\<lparr>inPotentialTableBlock := True,
            potentialTableBlockLines := [inputLines ! i, inputLines ! (i + 1)]\<rparr>)"
proof -
  let ?st1 = "(flushCurrentParagraph st)\<lparr>inPotentialTableBlock := True,
      potentialTableBlockLines := [inputLines ! i]\<rparr>"
  have p0: "processLine inputLines i st = (i, ?st1)"
    using assms(2,3,4) tabular_nonBlank [OF assms(3)]
    by (simp add: processLine_tabular flushCurrentParagraph_def)
  have idle: "flushCurrentParagraph ?st1 = ?st1"
    by (simp add: flushCurrentParagraph_def)
  have p1: "processLine inputLines (i + 1) ?st1
      = (i + 1, (flushCurrentParagraph st)\<lparr>inPotentialTableBlock := True,
            potentialTableBlockLines := [inputLines ! i, inputLines ! (i + 1)]\<rparr>)"
    using assms(5,6) tabular_nonBlank [OF assms(5)] idle
    by (simp add: processLine_tabular)
  have "convertLoop inputLines i st = convertLoop inputLines (i + 1) ?st1"
    using assms(1) convertLoop_step [of i inputLines st] by (simp add: p0)
  also have "\<dots> = convertLoop inputLines (i + 2)
         ((flushCurrentParagraph st)\<lparr>inPotentialTableBlock := True,
            potentialTableBlockLines := [inputLines ! i, inputLines ! (i + 1)]\<rparr>)"
    using assms(1) convertLoop_step [of "i + 1" inputLines ?st1] p1 by simp
  finally show ?thesis .
qed

lemma flush_two_lines:
  "potentialTableBlockLines st = [a, b] \<Longrightarrow>
   markdownOutputLines (flushPotentialTableBlock st)
     = markdownOutputLines st @ serialize [FencedBlock [trimEnd a, trimEnd b]]"
  by (simp add: flushPotentialTableBlock_def serialize_def)

lemma flush_one_line:
  "potentialTableBlockLines st = [a] \<Longrightarrow>
   markdownOutputLines (flushPotentialTableBlock st)
     = markdownOutputLines st @ serialize [Paragraph (trim a)]"
  by (simp add: flushPotentialTableBlock_def serialize_def)

section \<open>Headings\<close>

text \<open>
  Claim C3, as stated, fails in its second half: the all-caps test has no test for the
  closing punctuation, so the short line \<^verbatim>\<open>TOTAL.\<close> is a heading although it ends in a
  full stop.
\<close>

theorem caps_line_with_punctuation_counterexample:
  "isShortLine (js ''TOTAL.'') \<and> endsWithPunctuation (js ''TOTAL.'') \<and>
   isHeadingLine [js ''TOTAL.'', js ''more text follows.''] 0 \<and>
   collectOutputLines (js ''TOTAL.'' @ [LF] @ js ''more text follows.'')
     = serialize [Heading (js ''TOTAL.''), Paragraph (js ''more text follows.'')]"
  by code_simp

text \<open>
  Claim C3, amended. A line that trims to \<^verbatim>\<open>INVOICE\<close> is a heading line. When a heading
  line stands before a blank line, the loop emits the heading after flushing what is
  pending and goes on behind the blank line, for which nothing is emitted. A line that
  ends in sentence punctuation and is not an all-caps line is never a heading line;
  \<^verbatim>\<open>Page 1 of 10.\<close> is such a line and comes out as a paragraph.
\<close>

theorem heading_detection:
  "(trim (inputLines ! i) = js ''INVOICE'' \<longrightarrow> isHeadingLine inputLines i) \<and>
   (i + 1 < length inputLines \<and> isHeadingLine inputLines i \<and> trim (inputLines ! (i + 1)) = []
    \<longrightarrow> convertLoop inputLines i st
          = convertLoop inputLines (i + 2)
              ((flushPending st)\<lparr>markdownOutputLines :=
                 markdownOutputLines (flushPending st)
                   @ blockLines (Heading (trim (inputLines ! i)))\<rparr>)) \<and>
   (endsWithPunctuation (trim (inputLines ! i)) \<and> \<not> isAllCapsLine (trim (inputLines ! i))
    \<longrightarrow> \<not> isHeadingLine inputLines i) \<and>
   collectOutputLines (js ''INVOICE'' @ [LF, LF] @ js ''Page 1 of 10.'')
     = serialize [Heading (js ''INVOICE''), Paragraph (js ''Page 1 of 10.'')]"
proof (intro conjI impI)
  assume "trim (inputLines ! i) = js ''INVOICE''"
  then show "isHeadingLine inputLines i"
    by (simp add: isHeadingLine_def invoice_caps)
next
  assume "i + 1 < length inputLines \<and> isHeadingLine inputLines i \<and>
    trim (inputLines ! (i + 1)) = []"
  then show "convertLoop inputLines i st
      = convertLoop inputLines (i + 2)
          ((flushPending st)\<lparr>markdownOutputLines :=
             markdownOutputLines (flushPending st)
               @ blockLines (Heading (trim (inputLines ! i)))\<rparr>)"
    using heading_then_blank [of i inputLines st] by blast
next
  assume "endsWithPunctuation (trim (inputLines ! i)) \<and> \<not> isAllCapsLine (trim (inputLines ! i))"
  then show "\<not> isHeadingLine inputLines i"
    by (simp add: isHeadingLine_def noPunctuationEnd_def)
next
  show "collectOutputLines (js ''INVOICE'' @ [LF, LF] @ js ''Page 1 of 10.'')
     = serialize [Heading (js ''INVOICE''), Paragraph (js ''Page 1 of 10.'')]"
    by code_simp
qed

theorem heading_detection_witness:
  "trim ([js ''INVOICE'', [], js ''Page 1 of 10.''] ! 0) = js ''INVOICE'' \<and>
   isHeadingLine [js ''INVOICE'', [], js ''Page 1 of 10.''] 0 \<and>
   0 + 1 < length [js ''INVOICE'', [], js ''Page 1 of 10.''] \<and>
   trim ([js ''INVOICE'', [], js ''Page 1 of 10.''] ! (0 + 1)) = [] \<and>
   convertLoop [js ''INVOICE'', [], js ''Page 1 of 10.''] 0 initialState
     = convertLoop [js ''INVOICE'', [], js ''Page 1 of 10.''] (0 + 2)
         ((flushPending initialState)\<lparr>markdownOutputLines :=
            markdownOutputLines (flushPending initialState)
              @ blockLines (Heading (trim ([js ''INVOICE'', [], js ''Page 1 of 10.''] ! 0)))\<rparr>) \<and>
   endsWithPunctuation (trim ([js ''INVOICE'', [], js ''Page 1 of 10.''] ! 2)) \<and>
   \<not> isAllCapsLine (trim ([js ''INVOICE'', [], js ''Page 1 of 10.''] ! 2)) \<and>
   \<not> isHeadingLine [js ''INVOICE'', [], js ''Page 1 of 10.''] 2"
proof -
  let ?ls = "[js ''INVOICE'', [], js ''Page 1 of 10.'']"
  have a: "trim (?ls ! 0) = js ''INVOICE''" by code_simp
  have b: "0 + 1 < length ?ls" by simp
  have c: "trim (?ls ! (0 + 1)) = []" by code_simp
  have d: "endsWithPunctuation (trim (?ls ! 2))" by code_simp
  have e: "\<not> isAllCapsLine (trim (?ls ! 2))" by code_simp
  have h: "isHeadingLine ?ls 0"
    using heading_detection [of ?ls 0 initialState] a by blast
  have l: "convertLoop ?ls 0 initialState
     = convertLoop ?ls (0 + 2)
         ((flushPending initialState)\<lparr>markdownOutputLines :=
            markdownOutputLines (flushPending initialState)
              @ blockLines (Heading (trim (?ls ! 0)))\<rparr>)"
    using heading_detection [of ?ls 0 initialState] b c h by blast
  have n: "\<not> isHeadingLine ?ls 2"
    using heading_detection [of ?ls 2 initialState] d e by blast
  from a h b c l d e n show ?thesis by (intro conjI)
qed

section \<open>Tabular lines\<close>

text \<open>
  Claim C4, as stated, fails: the heading test comes before the tabular test. Of the two
  lines \<^verbatim>\<open>a  b\<close> and \<^verbatim>\<open>c  d\<close> the second is short, has no closing punctuation and ends
  the input, so it is a heading and the first is left alone as a paragraph; the single
  line \<^verbatim>\<open>a  b\<close> is a heading, not a paragraph.
\<close>

theorem tabular_lines_heading_counterexample:
  "hasMultipleSpacesBetweenWords (js ''a  b'') \<and> hasMultipleSpacesBetweenWords (js ''c  d'') \<and>
   collectOutputLines (js ''a  b'' @ [LF] @ js ''c  d'')
     = serialize [Paragraph (js ''a  b''), Heading (js ''c  d'')] \<and>
   collectOutputLines (js ''a  b'' @ [LF] @ js ''c  d'')
     \<noteq> serialize [FencedBlock [js ''a  b'', js ''c  d'']] \<and>
   collectOutputLines (js ''a  b'') = serialize [Heading (js ''a  b'')] \<and>
   collectOutputLines (js ''a  b'') \<noteq> serialize [Paragraph (js ''a  b'')]"
  by code_simp

text \<open>
  Claim C4, amended. Two consecutive lines that each contain a run of two or more
  whitespace code units between two other code units, and that are not heading lines,
  are emitted as one fenced block of exactly those two lines (trimmed at the end); one
  such line alone that is not a heading line is emitted as a paragraph. This is proved
  for a text that consists of the lines, and inside any text in two steps: the loop
  collects the two lines into the table buffer, and flushing a buffer of two lines
  emits the fenced block, flushing a buffer of one line a paragraph.
\<close>

theorem tabular_lines_fenced:
  "(LF \<notin> set l1 \<and> LF \<notin> set l2 \<and>
    hasMultipleSpacesBetweenWords l1 \<and> hasMultipleSpacesBetweenWords l2 \<and>
    \<not> isHeadingLine [l1, l2] 0 \<and> \<not> isHeadingLine [l1, l2] 1
    \<longrightarrow> collectOutputLines (l1 @ LF # l2) = serialize [FencedBlock [trimEnd l1, trimEnd l2]]) \<and>
   (LF \<notin> set l \<and> hasMultipleSpacesBetweenWords l \<and> \<not> isHeadingLine [l] 0
    \<longrightarrow> collectOutputLines l = serialize [Paragraph (trim l)]) \<and>
   (i + 1 < length inputLines \<and> potentialTableBlockLines st = [] \<and>
    hasMultipleSpacesBetweenWords (inputLines ! i) \<and> \<not> isHeadingLine inputLines i \<and>
    hasMultipleSpacesBetweenWords (inputLines ! (i + 1)) \<and> \<not> isHeadingLine inputLines (i + 1)
    \<longrightarrow> convertLoop inputLines i st
          = convertLoop inputLines (i + 2)
              ((flushCurrentParagraph st)\<lparr>inPotentialTableBlock := True,
                 potentialTableBlockLines := [inputLines ! i, inputLines ! (i + 1)]\<rparr>)) \<and>
   (potentialTableBlockLines st2 = [a, b]
    \<longrightarrow> markdownOutputLines (flushPotentialTableBlock st2)
          = markdownOutputLines st2 @ serialize [FencedBlock [trimEnd a, trimEnd b]]) \<and>
   (potentialTableBlockLines st1 = [c]
    \<longrightarrow> markdownOutputLines (flushPotentialTableBlock st1)
          = markdownOutputLines st1 @ serialize [Paragraph (trim c)])"
  using two_tabular_lines [of l1 l2] one_tabular_line [of l]
    two_tabular_lines_in_loop [of i inputLines st] flush_two_lines [of st2 a b]
    flush_one_line [of st1 c]
  by blast

theorem tabular_lines_fenced_witness:
  "LF \<notin> set (js ''Item   Qty.'') \<and> LF \<notin> set (js ''Pen    2.'') \<and>
   hasMultipleSpacesBetweenWords (js ''Item   Qty.'') \<and>
   hasMultipleSpacesBetweenWords (js ''Pen    2.'') \<and>
   \<not> isHeadingLine [js ''Item   Qty.'', js ''Pen    2.''] 0 \<and>
   \<not> isHeadingLine [js ''Item   Qty.'', js ''Pen    2.''] 1 \<and>
   collectOutputLines (js ''Item   Qty.'' @ LF # js ''Pen    2.'')
     = serialize [FencedBlock [trimEnd (js ''Item   Qty.''), trimEnd (js ''Pen    2.'')]] \<and>
   trimEnd (js ''Item   Qty.'') = js ''Item   Qty.'' \<and> trimEnd (js ''Pen    2.'') = js ''Pen    2.'' \<and>
   \<not> isHeadingLine [js ''Item   Qty.''] 0 \<and>
   collectOutputLines (js ''Item   Qty.'') = serialize [Paragraph (trim (js ''Item   Qty.''))] \<and>
   trim (js ''Item   Qty.'') = js ''Item   Qty.'' \<and>
   0 + 1 < length [js ''Item   Qty.'', js ''Pen    2.''] \<and>
   potentialTableBlockLines initialState = [] \<and>
   hasMultipleSpacesBetweenWords ([js ''Item   Qty.'', js ''Pen    2.''] ! 0) \<and>
   hasMultipleSpacesBetweenWords ([js ''Item   Qty.'', js ''Pen    2.''] ! (0 + 1)) \<and>
   \<not> isHeadingLine [js ''Item   Qty.'', js ''Pen    2.''] (0 + 1) \<and>
   convertLoop [js ''Item   Qty.'', js ''Pen    2.''] 0 initialState
     = convertLoop [js ''Item   Qty.'', js ''Pen    2.''] (0 + 2)
         ((flushCurrentParagraph initialState)\<lparr>inPotentialTableBlock := True,
            potentialTableBlockLines :=
              [[js ''Item   Qty.'', js ''Pen    2.''] ! 0,
               [js ''Item   Qty.'', js ''Pen    2.''] ! (0 + 1)]\<rparr>) \<and>
   potentialTableBlockLines
     (initialState\<lparr>potentialTableBlockLines := [js ''Item   Qty.'', js ''Pen    2.'']\<rparr>)
     = [js ''Item   Qty.'', js ''Pen    2.''] \<and>
   markdownOutputLines
     (flushPotentialTableBlock
        (initialState\<lparr>potentialTableBlockLines := [js ''Item   Qty.'', js ''Pen    2.'']\<rparr>))
     = markdownOutputLines
         (initialState\<lparr>potentialTableBlockLines := [js ''Item   Qty.'', js ''Pen    2.'']\<rparr>)
         @ serialize [FencedBlock [trimEnd (js ''Item   Qty.''), trimEnd (js ''Pen    2.'')]] \<and>
   potentialTableBlockLines (initialState\<lparr>potentialTableBlockLines := [js ''Item   Qty.'']\<rparr>)
     = [js ''Item   Qty.''] \<and>
   markdownOutputLines
     (flushPotentialTableBlock (initialState\<lparr>potentialTableBlockLines := [js ''Item   Qty.'']\<rparr>))
     = markdownOutputLines (initialState\<lparr>potentialTableBlockLines := [js ''Item   Qty.'']\<rparr>)
         @ serialize [Paragraph (trim (js ''Item   Qty.''))]"
proof -
  let ?ls = "[js ''Item   Qty.'', js ''Pen    2.'']"
  note T = tabular_lines_fenced [where ?l1.0 = "js ''Item   Qty.''" and ?l2.0 = "js ''Pen    2.''"
      and l = "js ''Item   Qty.''" and i = 0 and inputLines = ?ls and st = initialState
      and ?st2.0 = "initialState\<lparr>potentialTableBlockLines := ?ls\<rparr>"
      and a = "js ''Item   Qty.''" and b = "js ''Pen    2.''"
      and ?st1.0 = "initialState\<lparr>potentialTableBlockLines := [js ''Item   Qty.'']\<rparr>"
      and c = "js ''Item   Qty.''"]
  have a: "LF \<notin> set (js ''Item   Qty.'')" "LF \<notin> set (js ''Pen    2.'')"
    by (simp_all add: js_simps LF_def)
  have b: "hasMultipleSpacesBetweenWords (js ''Item   Qty.'')"
    "hasMultipleSpacesBetweenWords (js ''Pen    2.'')"
    by code_simp+
  have c: "\<not> isHeadingLine ?ls 0" "\<not> isHeadingLine ?ls 1"
    "\<not> isHeadingLine [js ''Item   Qty.''] 0"
    by code_simp+
  have d: "trimEnd (js ''Item   Qty.'') = js ''Item   Qty.''"
    "trimEnd (js ''Pen    2.'') = js ''Pen    2.''" "trim (js ''Item   Qty.'') = js ''Item   Qty.''"
    by code_simp+
  have e: "0 + 1 < length ?ls" "potentialTableBlockLines initialState = []"
    "hasMultipleSpacesBetweenWords (?ls ! 0)" "hasMultipleSpacesBetweenWords (?ls ! (0 + 1))"
    "\<not> isHeadingLine ?ls (0 + 1)"
    using b c by (simp_all add: initialState_def)
  have f: "potentialTableBlockLines (initialState\<lparr>potentialTableBlockLines := ?ls\<rparr>) = ?ls"
    "potentialTableBlockLines (initialState\<lparr>potentialTableBlockLines := [js ''Item   Qty.'']\<rparr>)
      = [js ''Item   Qty.'']"
    by simp_all
  have t1: "collectOutputLines (js ''Item   Qty.'' @ LF # js ''Pen    2.'')
     = serialize [FencedBlock [trimEnd (js ''Item   Qty.''), trimEnd (js ''Pen    2.'')]]"
    using T a b c by blast
  have t2: "collectOutputLines (js ''Item   Qty.'') = serialize [Paragraph (trim (js ''Item   Qty.''))]"
    using T a b c by blast
  have t3: "convertLoop ?ls 0 initialState
     = convertLoop ?ls (0 + 2)
         ((flushCurrentParagraph initialState)\<lparr>inPotentialTableBlock := True,
            potentialTableBlockLines := [?ls ! 0, ?ls ! (0 + 1)]\<rparr>)"
    using T e c(1) by blast
  have t4: "markdownOutputLines
     (flushPotentialTableBlock (initialState\<lparr>potentialTableBlockLines := ?ls\<rparr>))
     = markdownOutputLines (initialState\<lparr>potentialTableBlockLines := ?ls\<rparr>)
         @ serialize [FencedBlock [trimEnd (js ''Item   Qty.''), trimEnd (js ''Pen    2.'')]]"
    using T f(1) by blast
  have t5: "markdownOutputLines
     (flushPotentialTableBlock (initialState\<lparr>potentialTableBlockLines := [js ''Item   Qty.'']\<rparr>))
     = markdownOutputLines (initialState\<lparr>potentialTableBlockLines := [js ''Item   Qty.'']\<rparr>)
         @ serialize [Paragraph (trim (js ''Item   Qty.''))]"
    using T f(2) by blast
  from a b c d e f t1 t2 t3 t4 t5 show ?thesis by (intro conjI)
qed

section \<open>Output for a text that is not blank\<close>

text \<open>
  Claim C5, as stated, fails: a text of whitespace alone is not empty, and the result for
  it is the empty string, with no line emitted.
\<close>

theorem blank_input_counterexample:
  "js '' '' \<noteq> [] \<and> collectOutputLines (js '' '') = [] \<and> convertToMarkdownLogic (js '' '') = [] \<and>
   [LF, LF] \<noteq> [] \<and> collectOutputLines [LF, LF] = [] \<and> convertToMarkdownLogic [LF, LF] = []"
  by code_simp

text \<open>
  Claim C5, amended. For every text with a code unit that is not whitespace,
  \<^verbatim>\<open>_convertToMarkdownLogic\<close> emits at least one line and returns a string that is not
  empty.
\<close>

theorem text_gives_output:
  assumes "nonBlank rawText"
  shows "collectOutputLines rawText \<noteq> [] \<and> convertToMarkdownLogic rawText \<noteq> []"
proof -
  have out: "list_ex nonBlank (collectOutputLines rawText)"
    using assms by (rule collectOutputLines_nonBlank)
  then have "list_ex nonBlank (map trimEnd (collectOutputLines rawText))"
    by (auto simp: list_ex_iff nonBlank_trimEnd)
  then have "nonBlank (join [LF] (map trimEnd (collectOutputLines rawText)))"
    by (rule nonBlank_join)
  then have "nonBlank (replaceRegExp newlineRun3 [LF, LF] []
      (join [LF] (map trimEnd (collectOutputLines rawText))))"
    by (rule newlineRun3_nonBlank)
  then have "convertToMarkdownLogic rawText \<noteq> []"
    by (simp add: convertToMarkdownLogic_def trim_Nil_iff)
  moreover from out have "collectOutputLines rawText \<noteq> []"
    by auto
  ultimately show ?thesis by simp
qed

theorem text_gives_output_witness:
  "nonBlank (js '' x '') \<and> collectOutputLines (js '' x '') \<noteq> [] \<and>
   convertToMarkdownLogic (js '' x '') \<noteq> [] \<and>
   convertToMarkdownLogic (js '' x '') = js ''x''"
proof -
  have a: "nonBlank (js '' x '')" by code_simp
  have b: "convertToMarkdownLogic (js '' x '') = js ''x''" by code_simp
  from a b text_gives_output [OF a] show ?thesis by (intro conjI) simp_all
qed

section \<open>The conversion entry points\<close>

lemma trace_emit: "trace (emit e w) = trace w @ [e]"
  by (simp add: emit_def)

lemma trace_progressCallback: "trace (progressCallback s w) = trace w @ [Progress s]"
  by (simp add: progressCallback_def emit_def)

lemma ocrPages_no_terminate:
  "WorkerTerminate \<notin> set (trace w) \<Longrightarrow>
   WorkerTerminate \<notin> set (trace (snd (ocrPages pageNum pages acc w)))"
  by (induction pageNum pages acc w rule: ocrPages.induct)
     (auto simp: trace_emit trace_progressCallback split: option.splits)

text \<open>
  Claim C10: for an argument that is not a \<^verbatim>\<open>File\<close>, \<^verbatim>\<open>quickConvert\<close> and
  \<^verbatim>\<open>highAccuracyConvert\<close> fail with the invalid-input error and leave the world as it
  was: no report, no call of an engine, the same instance.
\<close>

theorem invalid_input_rejected:
  assumes "\<not> isFileObject pdfFile"
  shows "quickConvert env w pdfFile postProcessRules = (Inl InvalidInput, w) \<and>
    highAccuracyConvert env w pdfFile options = (Inl InvalidInput, w)"
  using assms
  by (cases pdfFile) (simp_all add: isFileObject_def quickConvert_def highAccuracyConvert_def)

theorem invalid_input_rejected_witness:
  "\<not> isFileObject (StringValue (js ''report.pdf'')) \<and>
   quickConvert browser (freshWorld noOptions) (StringValue (js ''report.pdf'')) None
     = (Inl InvalidInput, freshWorld noOptions) \<and>
   highAccuracyConvert browser (freshWorld noOptions) (StringValue (js ''report.pdf''))
       \<lparr>hac_postProcessRules = None, hac_tesseractLanguage = None\<rparr>
     = (Inl InvalidInput, freshWorld noOptions)"
proof -
  have a: "\<not> isFileObject (StringValue (js ''report.pdf''))"
    by (simp add: isFileObject_def)
  from a invalid_input_rejected [OF a] show ?thesis by simp
qed

text \<open>
  Claim C9 does not hold of the code: \<^verbatim>\<open>worker.terminate()\<close> stands behind the page
  loop only, outside any \<^verbatim>\<open>finally\<close>. Whenever \<^verbatim>\<open>highAccuracyConvert\<close> fails, the worker
  has not been terminated; the witness is a file whose second page the worker rejects.
\<close>

theorem failed_conversion_leaves_worker:
  assumes "WorkerTerminate \<notin> set (trace w)"
    "fst (highAccuracyConvert env w pdfFile options) = Inl e"
  shows "WorkerTerminate \<notin> set (trace (snd (highAccuracyConvert env w pdfFile options)))"
proof (cases pdfFile)
  case (FileObject content)
  show ?thesis
  proof (cases content)
    case None
    with FileObject assms show ?thesis
      by (auto simp: highAccuracyConvert_def trace_emit trace_progressCallback split: if_splits)
  next
    case (Some pages)
    let ?w = "emit PdfGetDocument
       (emit FileArrayBuffer
          (emit (TesseractCreateWorker
                   (orDefault (hac_tesseractLanguage options) (tesseractLanguage (converter w))))
             (progressCallback ''ocr_worker_init'' (progressCallback ''start_ocr'' w))))"
    have "WorkerTerminate \<notin> set (trace ?w)"
      using assms(1) by (simp add: trace_emit trace_progressCallback)
    then have "WorkerTerminate \<notin> set (trace (snd (ocrPages 1 pages [] ?w)))"
      by (rule ocrPages_no_terminate)
    with FileObject Some assms show ?thesis
      by (cases "ocrPages 1 pages [] ?w"; cases "fst (ocrPages 1 pages [] ?w)")
         (auto simp: highAccuracyConvert_def trace_emit trace_progressCallback split: if_splits)
  qed
qed (use assms in \<open>simp_all add: highAccuracyConvert_def\<close>)

theorem failed_conversion_leaves_worker_witness:
  "WorkerTerminate \<notin> set (trace (freshWorld noOptions)) \<and>
   fst (highAccuracyConvert browser (freshWorld noOptions)
          (FileObject (Some [readablePage, unreadablePage])) noConvertOptions) = Inl Rejected \<and>
   WorkerTerminate
     \<notin> set (trace (snd (highAccuracyConvert browser (freshWorld noOptions)
                          (FileObject (Some [readablePage, unreadablePage])) noConvertOptions))) \<and>
   trace (snd (highAccuracyConvert browser (freshWorld noOptions)
                 (FileObject (Some [readablePage, unreadablePage])) noConvertOptions))
     = [Progress ''start_ocr'', Progress ''ocr_worker_init'', TesseractCreateWorker (js ''eng''),
        FileArrayBuffer, PdfGetDocument,
        Progress ''ocr_render_page'', PdfGetPage 1, PageRender 1,
        Progress ''ocr_recognize_page'', WorkerRecognize 1,
        Progress ''ocr_render_page'', PdfGetPage 2, PageRender 2,
        Progress ''ocr_recognize_page'', WorkerRecognize 2]"
proof -
  have a: "WorkerTerminate \<notin> set (trace (freshWorld noOptions))"
    by (simp add: freshWorld_def)
  have b: "fst (highAccuracyConvert browser (freshWorld noOptions)
          (FileObject (Some [readablePage, unreadablePage])) noConvertOptions) = Inl Rejected"
    by code_simp
  have c: "trace (snd (highAccuracyConvert browser (freshWorld noOptions)
                 (FileObject (Some [readablePage, unreadablePage])) noConvertOptions))
     = [Progress ''start_ocr'', Progress ''ocr_worker_init'', TesseractCreateWorker (js ''eng''),
        FileArrayBuffer, PdfGetDocument,
        Progress ''ocr_render_page'', PdfGetPage 1, PageRender 1,
        Progress ''ocr_recognize_page'', WorkerRecognize 1,
        Progress ''ocr_render_page'', PdfGetPage 2, PageRender 2,
        Progress ''ocr_recognize_page'', WorkerRecognize 2]"
    by code_simp
  from a b c failed_conversion_leaves_worker [OF a b] show ?thesis by (intro conjI)
qed

section \<open>The lifecycle of the generative engine\<close>

lemma converter_emit: "converter (emit e w) = converter w"
  by (simp add: emit_def)

lemma converter_progressCallback: "converter (progressCallback s w) = converter w"
  by (simp add: progressCallback_def emit_def)

lemma initializationCalls_append:
  "initializationCalls (xs @ ys) = initializationCalls xs + initializationCalls ys"
  by (simp add: initializationCalls_def)

lemma initializationCalls_simps:
  "initializationCalls [] = 0"
  "initializationCalls (Progress s # es) = initializationCalls es"
  "initializationCalls (EngineCreate model # es) = Suc (initializationCalls es)"
  "initializationCalls (EngineUnload n # es) = initializationCalls es"
  "initializationCalls (EngineCompletion n # es) = initializationCalls es"
  "initializationCalls (EngineGenerate n # es) = initializationCalls es"
  by (simp_all add: initializationCalls_def isInitializationCall_def)

lemma orDefault_nonempty: "d \<noteq> [] \<Longrightarrow> orDefault x d \<noteq> []"
  by (simp add: orDefault_def split: option.splits)

lemma generate_converter: "converter (snd (generate env w engine prompt)) = converter w"
  by (simp add: generate_def generationFailed_def converter_emit converter_progressCallback
      split: option.splits)

lemma generate_trace:
  "\<exists>es. trace (snd (generate env w engine prompt)) = trace w @ es \<and> initializationCalls es = 0"
  by (simp add: generate_def generationFailed_def trace_emit trace_progressCallback
      initializationCalls_simps split: option.splits)

lemma initializeLLM_fresh:
  assumes "WebLLMCreateEngine (converter w)" "chatModule (converter w) = None"
    "llmModelLibUrl (converter w) \<noteq> None \<or> model = DEFAULT_LLM_MODEL"
    "createEngineResult env model = Some engine"
  shows "initializeLLM env w model =
     (Inr (),
      progressCallback ''llm_init_complete''
        (setInitialized True
           (setChatModule (Some (engine\<lparr>modelId := Some model\<rparr>))
              (emit (EngineCreate model)
                 (setInitialized False (progressCallback ''llm_init'' w))))))"
  using assms
  by (auto simp: initializeLLM_def createEngine_def initSucceeded_def currentModelId_def
      setInitialized_def setChatModule_def progressCallback_def emit_def)

lemma initializeLLM_ready:
  assumes "readyFor model engine w" "model \<noteq> []"
  shows "initializeLLM env w model = (Inr (), progressCallback ''llm_ready'' w)"
  using assms by (simp add: initializeLLM_def readyFor_def currentModelId_def)

lemma initializeLLM_switch:
  assumes "readyFor model engine w" "other \<noteq> model" "model \<noteq> []" "hasUnload engine"
    "\<not> unloadFails env"
  shows "initializeLLM env w other =
     createEngine env
       (setInitialized False
          (setChatModule None
             (emit (EngineUnload (engineId engine)) (progressCallback ''llm_init'' w))))
       other"
  using assms by (auto simp: initializeLLM_def readyFor_def currentModelId_def)

lemma createEngine_trace:
  assumes "WebLLMCreateEngine (converter w)"
    "llmModelLibUrl (converter w) \<noteq> None \<or> model = DEFAULT_LLM_MODEL"
  shows "\<exists>es. trace (snd (createEngine env w model)) = trace w @ EngineCreate model # es"
  using assms
  by (auto simp: createEngine_def initFailed_def initSucceeded_def setInitialized_def
      setChatModule_def progressCallback_def emit_def split: option.splits)

lemma llmRewrite_trace_extends:
  "\<exists>es. trace (snd (llmRewrite env w t options))
      = trace (snd (initializeLLM env w (orDefault (rw_llmModel options) (llmModel (converter w)))))
          @ es \<and> initializationCalls es = 0"
proof -
  let ?i = "initializeLLM env w (orDefault (rw_llmModel options) (llmModel (converter w)))"
  obtain r w' where i: "?i = (r, w')" by (cases ?i)
  show ?thesis
  proof (cases r)
    case (Inl e)
    with i show ?thesis by (simp add: llmRewrite_def initializationCalls_simps)
  next
    case (Inr u)
    show ?thesis
    proof (cases "chatModule (converter w')")
      case None
      with i Inr show ?thesis by (simp add: llmRewrite_def initializationCalls_simps)
    next
      case (Some engine)
      show ?thesis
      proof (cases "llmInitialized (converter w')")
        case False
        with i Inr Some show ?thesis by (simp add: llmRewrite_def initializationCalls_simps)
      next
        case True
        obtain es where "trace (snd (generate env (progressCallback ''llm_generate_start'' w') engine
              ((case rw_llmPromptTemplate options of None \<Rightarrow> defaultPromptTemplate
                | Some promptTemplate \<Rightarrow> promptTemplate) t)))
            = trace (progressCallback ''llm_generate_start'' w') @ es" "initializationCalls es = 0"
          using generate_trace by blast
        with i Inr Some True show ?thesis
          by (simp add: llmRewrite_def trace_progressCallback initializationCalls_simps
              initializationCalls_append)
      qed
    qed
  qed
qed

lemma llmRewrite_converter:
  "fst (initializeLLM env w (orDefault (rw_llmModel options) (llmModel (converter w)))) = Inr u \<Longrightarrow>
   converter (snd (llmRewrite env w t options))
     = converter (snd (initializeLLM env w (orDefault (rw_llmModel options) (llmModel (converter w)))))"
  by (cases "initializeLLM env w (orDefault (rw_llmModel options) (llmModel (converter w)))")
     (auto simp: llmRewrite_def generate_converter converter_progressCallback
        split: option.splits sum.splits)

lemma llmRewrite_first:
  assumes "WebLLMCreateEngine (converter w)" "chatModule (converter w) = None"
    "orDefault (rw_llmModel options) (llmModel (converter w)) = model"
    "llmModelLibUrl (converter w) \<noteq> None \<or> model = DEFAULT_LLM_MODEL"
    "createEngineResult env model = Some engine"
  shows "readyFor model engine (snd (llmRewrite env w t options)) \<and>
    llmModel (converter (snd (llmRewrite env w t options))) = llmModel (converter w) \<and>
    llmModelLibUrl (converter (snd (llmRewrite env w t options))) = llmModelLibUrl (converter w) \<and>
    initializationCalls (trace (snd (llmRewrite env w t options)))
      = initializationCalls (trace w) + 1"
proof -
  note i = initializeLLM_fresh [OF assms(1,2,4,5)]
  have c: "converter (snd (llmRewrite env w t options))
      = (converter w)\<lparr>llmInitialized := True,
           chatModule := Some (engine\<lparr>modelId := Some model\<rparr>)\<rparr>"
    using llmRewrite_converter [of env w options "()" t] assms(3) i
    by (simp add: setInitialized_def setChatModule_def progressCallback_def emit_def)
  obtain es where "trace (snd (llmRewrite env w t options))
      = trace (snd (initializeLLM env w model)) @ es" "initializationCalls es = 0"
    using llmRewrite_trace_extends [of env w t options] assms(3) by auto
  then have "initializationCalls (trace (snd (llmRewrite env w t options)))
      = initializationCalls (trace w) + 1"
    by (simp add: i setInitialized_def setChatModule_def progressCallback_def emit_def
        initializationCalls_append initializationCalls_simps)
  with c assms(1) show ?thesis by (simp add: readyFor_def)
qed

lemma llmRewrite_again:
  assumes "readyFor model engine w" "model \<noteq> []"
    "orDefault (rw_llmModel options) (llmModel (converter w)) = model"
  shows "readyFor model engine (snd (llmRewrite env w t options)) \<and>
    llmModel (converter (snd (llmRewrite env w t options))) = llmModel (converter w) \<and>
    llmModelLibUrl (converter (snd (llmRewrite env w t options))) = llmModelLibUrl (converter w) \<and>
    initializationCalls (trace (snd (llmRewrite env w t options))) = initializationCalls (trace w)"
proof -
  note i = initializeLLM_ready [OF assms(1,2), of env]
  have c: "converter (snd (llmRewrite env w t options)) = converter w"
    using llmRewrite_converter [of env w options "()" t] assms(3) i
    by (simp add: converter_progressCallback)
  obtain es where "trace (snd (llmRewrite env w t options))
      = trace (snd (initializeLLM env w model)) @ es" "initializationCalls es = 0"
    using llmRewrite_trace_extends [of env w t options] assms(3) by auto
  then have "initializationCalls (trace (snd (llmRewrite env w t options)))
      = initializationCalls (trace w)"
    by (simp add: i trace_progressCallback initializationCalls_append initializationCalls_simps)
  with c assms(1) show ?thesis by (simp add: readyFor_def)
qed

lemma llmRewrite_other_model:
  assumes "readyFor model engine w" "other \<noteq> model" "model \<noteq> []" "hasUnload engine"
    "\<not> unloadFails env" "orDefault (rw_llmModel options) (llmModel (converter w)) = other"
    "llmModelLibUrl (converter w) \<noteq> None \<or> other = DEFAULT_LLM_MODEL"
  shows "\<exists>es. trace (snd (llmRewrite env w t options))
      = trace w @ Progress ''llm_init'' # EngineUnload (engineId engine) # EngineCreate other # es"
proof -
  let ?w = "setInitialized False
      (setChatModule None
         (emit (EngineUnload (engineId engine)) (progressCallback ''llm_init'' w)))"
  have i: "initializeLLM env w other = createEngine env ?w other"
    using assms(1-5) by (rule initializeLLM_switch)
  have "WebLLMCreateEngine (converter ?w)"
    "llmModelLibUrl (converter ?w) \<noteq> None \<or> other = DEFAULT_LLM_MODEL"
    using assms(1,7)
    by (simp_all add: readyFor_def setInitialized_def setChatModule_def progressCallback_def
        emit_def)
  then obtain es where "trace (snd (createEngine env ?w other)) = trace ?w @ EngineCreate other # es"
    using createEngine_trace by blast
  then have "trace (snd (initializeLLM env w other))
      = trace w @ Progress ''llm_init'' # EngineUnload (engineId engine) # EngineCreate other # es"
    by (simp add: i setInitialized_def setChatModule_def progressCallback_def emit_def)
  moreover obtain es' where "trace (snd (llmRewrite env w t options))
      = trace (snd (initializeLLM env w other)) @ es'"
    using llmRewrite_trace_extends [of env w t options] assms(6) by auto
  ultimately show ?thesis by simp
qed

text \<open>
  Claim C8, as stated, fails in its second half for a converter without
  \<^verbatim>\<open>llmModelLibUrl\<close>: after two calls with the default model, a call with another model
  unloads the engine and then fails in the \<^verbatim>\<open>model_lib\<close> check, and \<^verbatim>\<open>CreateMLCEngine\<close>
  is not called for the other model.
\<close>

theorem other_model_without_lib_counterexample:
  "initializationCalls
     (trace (afterTwoRewrites browser (freshWorld noOptions) (js ''text'') defaultModelOptions
               (js ''text'') defaultModelOptions)) = 1 \<and>
   fst (llmRewrite browser
          (afterTwoRewrites browser (freshWorld noOptions) (js ''text'') defaultModelOptions
             (js ''text'') defaultModelOptions)
          (js ''text'') otherModelOptions) = Inl LLMInitFailed \<and>
   trace (snd (llmRewrite browser
          (afterTwoRewrites browser (freshWorld noOptions) (js ''text'') defaultModelOptions
             (js ''text'') defaultModelOptions)
          (js ''text'') otherModelOptions))
     = trace (afterTwoRewrites browser (freshWorld noOptions) (js ''text'') defaultModelOptions
                (js ''text'') defaultModelOptions)
         @ [Progress ''llm_init'', EngineUnload 22, Progress ''llm_init_error'']"
  by code_simp

text \<open>
  Claim C8, amended. On a converter that holds no engine yet, two calls of
  \<^verbatim>\<open>llmRewrite\<close> for the same model, whose engine can be created, issue exactly one
  initialization call. When \<^verbatim>\<open>llmModelLibUrl\<close> is set, a following call for another model
  reports \<^verbatim>\<open>llm_init\<close>, unloads the engine that is loaded and then calls
  \<^verbatim>\<open>CreateMLCEngine\<close> for the other model.
\<close>

theorem rewrite_lifecycle:
  "(WebLLMCreateEngine (converter w) \<and> chatModule (converter w) = None \<and>
    llmModel (converter w) \<noteq> [] \<and>
    orDefault (rw_llmModel o1) (llmModel (converter w)) = model \<and>
    orDefault (rw_llmModel o2) (llmModel (converter w)) = model \<and>
    (llmModelLibUrl (converter w) \<noteq> None \<or> model = DEFAULT_LLM_MODEL) \<and>
    createEngineResult env model = Some engine
    \<longrightarrow> initializationCalls (trace (afterTwoRewrites env w t1 o1 t2 o2))
          = initializationCalls (trace w) + 1) \<and>
   (WebLLMCreateEngine (converter w) \<and> chatModule (converter w) = None \<and>
    llmModel (converter w) \<noteq> [] \<and>
    orDefault (rw_llmModel o1) (llmModel (converter w)) = model \<and>
    orDefault (rw_llmModel o2) (llmModel (converter w)) = model \<and>
    llmModelLibUrl (converter w) \<noteq> None \<and>
    createEngineResult env model = Some engine \<and>
    orDefault (rw_llmModel o3) (llmModel (converter w)) = other \<and> other \<noteq> model \<and>
    hasUnload engine \<and> \<not> unloadFails env
    \<longrightarrow> (\<exists>es. trace (snd (llmRewrite env (afterTwoRewrites env w t1 o1 t2 o2) t3 o3))
              = trace (afterTwoRewrites env w t1 o1 t2 o2)
                  @ Progress ''llm_init'' # EngineUnload (engineId engine)
                      # EngineCreate other # es))"
proof (intro conjI impI)
  assume a: "WebLLMCreateEngine (converter w) \<and> chatModule (converter w) = None \<and>
    llmModel (converter w) \<noteq> [] \<and>
    orDefault (rw_llmModel o1) (llmModel (converter w)) = model \<and>
    orDefault (rw_llmModel o2) (llmModel (converter w)) = model \<and>
    (llmModelLibUrl (converter w) \<noteq> None \<or> model = DEFAULT_LLM_MODEL) \<and>
    createEngineResult env model = Some engine"
  let ?w1 = "snd (llmRewrite env w t1 o1)"
  from a have first: "readyFor model engine ?w1 \<and> llmModel (converter ?w1) = llmModel (converter w) \<and>
      llmModelLibUrl (converter ?w1) = llmModelLibUrl (converter w) \<and>
      initializationCalls (trace ?w1) = initializationCalls (trace w) + 1"
    by (intro llmRewrite_first) simp_all
  from a have ne: "model \<noteq> []"
    using orDefault_nonempty [of "llmModel (converter w)" "rw_llmModel o1"] by auto
  from first a have "initializationCalls (trace (snd (llmRewrite env ?w1 t2 o2)))
      = initializationCalls (trace ?w1)"
    using llmRewrite_again [of model engine ?w1 o2 env t2] ne by simp
  with first show "initializationCalls (trace (afterTwoRewrites env w t1 o1 t2 o2))
      = initializationCalls (trace w) + 1"
    by (simp add: afterTwoRewrites_def)
next
  assume a: "WebLLMCreateEngine (converter w) \<and> chatModule (converter w) = None \<and>
    llmModel (converter w) \<noteq> [] \<and>
    orDefault (rw_llmModel o1) (llmModel (converter w)) = model \<and>
    orDefault (rw_llmModel o2) (llmModel (converter w)) = model \<and>
    llmModelLibUrl (converter w) \<noteq> None \<and>
    createEngineResult env model = Some engine \<and>
    orDefault (rw_llmModel o3) (llmModel (converter w)) = other \<and> other \<noteq> model \<and>
    hasUnload engine \<and> \<not> unloadFails env"
  let ?w1 = "snd (llmRewrite env w t1 o1)"
  let ?w2 = "snd (llmRewrite env ?w1 t2 o2)"
  from a have first: "readyFor model engine ?w1 \<and> llmModel (converter ?w1) = llmModel (converter w) \<and>
      llmModelLibUrl (converter ?w1) = llmModelLibUrl (converter w) \<and>
      initializationCalls (trace ?w1) = initializationCalls (trace w) + 1"
    by (intro llmRewrite_first) simp_all
  from a have ne: "model \<noteq> []"
    using orDefault_nonempty [of "llmModel (converter w)" "rw_llmModel o1"] by auto
  from first a have second: "readyFor model engine ?w2 \<and>
      llmModel (converter ?w2) = llmModel (converter ?w1) \<and>
      llmModelLibUrl (converter ?w2) = llmModelLibUrl (converter ?w1) \<and>
      initializationCalls (trace ?w2) = initializationCalls (trace ?w1)"
    using llmRewrite_again [of model engine ?w1 o2 env t2] ne by simp
  from a first second have "\<exists>es. trace (snd (llmRewrite env ?w2 t3 o3))
      = trace ?w2 @ Progress ''llm_init'' # EngineUnload (engineId engine) # EngineCreate other # es"
    using ne by (intro llmRewrite_other_model [of model engine ?w2 other env o3 t3]) simp_all
  then show "\<exists>es. trace (snd (llmRewrite env (afterTwoRewrites env w t1 o1 t2 o2) t3 o3))
      = trace (afterTwoRewrites env w t1 o1 t2 o2)
          @ Progress ''llm_init'' # EngineUnload (engineId engine) # EngineCreate other # es"
    by (simp add: afterTwoRewrites_def)
qed

theorem rewrite_lifecycle_witness:
  "WebLLMCreateEngine (converter (freshWorld withModelLib)) \<and>
   chatModule (converter (freshWorld withModelLib)) = None \<and>
   llmModel (converter (freshWorld withModelLib)) \<noteq> [] \<and>
   orDefault (rw_llmModel defaultModelOptions) (llmModel (converter (freshWorld withModelLib)))
     = DEFAULT_LLM_MODEL \<and>
   llmModelLibUrl (converter (freshWorld withModelLib)) \<noteq> None \<and>
   createEngineResult browser DEFAULT_LLM_MODEL = Some (browserEngine 22) \<and>
   orDefault (rw_llmModel otherModelOptions) (llmModel (converter (freshWorld withModelLib)))
     = otherModel \<and>
   otherModel \<noteq> DEFAULT_LLM_MODEL \<and> hasUnload (browserEngine 22) \<and> \<not> unloadFails browser \<and>
   initializationCalls
     (trace (afterTwoRewrites browser (freshWorld withModelLib) (js ''text'') defaultModelOptions
               (js ''text'') defaultModelOptions))
     = initializationCalls (trace (freshWorld withModelLib)) + 1 \<and>
   (\<exists>es. trace (snd (llmRewrite browser
                       (afterTwoRewrites browser (freshWorld withModelLib) (js ''text'')
                          defaultModelOptions (js ''text'') defaultModelOptions)
                       (js ''text'') otherModelOptions))
          = trace (afterTwoRewrites browser (freshWorld withModelLib) (js ''text'')
                     defaultModelOptions (js ''text'') defaultModelOptions)
              @ Progress ''llm_init'' # EngineUnload (engineId (browserEngine 22))
                  # EngineCreate otherModel # es)"
proof -
  note T = rewrite_lifecycle [where w = "freshWorld withModelLib" and env = browser
      and ?o1.0 = defaultModelOptions and ?o2.0 = defaultModelOptions and ?o3.0 = otherModelOptions
      and model = DEFAULT_LLM_MODEL and other = otherModel and engine = "browserEngine 22"
      and ?t1.0 = "js ''text''" and ?t2.0 = "js ''text''" and ?t3.0 = "js ''text''"]
  have h1: "WebLLMCreateEngine (converter (freshWorld withModelLib))"
    by (simp add: freshWorld_def newConverter_def)
  have h2: "chatModule (converter (freshWorld withModelLib)) = None"
    by (simp add: freshWorld_def newConverter_def)
  have h3: "llmModel (converter (freshWorld withModelLib)) \<noteq> []"
    by code_simp
  have h4: "orDefault (rw_llmModel defaultModelOptions) (llmModel (converter (freshWorld withModelLib)))
     = DEFAULT_LLM_MODEL"
    by code_simp
  have h5: "llmModelLibUrl (converter (freshWorld withModelLib)) \<noteq> None"
    by code_simp
  have h6: "createEngineResult browser DEFAULT_LLM_MODEL = Some (browserEngine 22)"
    by code_simp
  have h7: "orDefault (rw_llmModel otherModelOptions) (llmModel (converter (freshWorld withModelLib)))
     = otherModel"
    by code_simp
  have h8: "otherModel \<noteq> DEFAULT_LLM_MODEL"
    by code_simp
  have h9: "hasUnload (browserEngine 22)" "\<not> unloadFails browser"
    by (simp_all add: browserEngine_def browser_def)
  have c1: "initializationCalls
     (trace (afterTwoRewrites browser (freshWorld withModelLib) (js ''text'') defaultModelOptions
               (js ''text'') defaultModelOptions))
     = initializationCalls (trace (freshWorld withModelLib)) + 1"
    using T h1 h2 h3 h4 h5 h6 by blast
  have c2: "\<exists>es. trace (snd (llmRewrite browser
                       (afterTwoRewrites browser (freshWorld withModelLib) (js ''text'')
                          defaultModelOptions (js ''text'') defaultModelOptions)
                       (js ''text'') otherModelOptions))
          = trace (afterTwoRewrites browser (freshWorld withModelLib) (js ''text'')
                     defaultModelOptions (js ''text'') defaultModelOptions)
              @ Progress ''llm_init'' # EngineUnload (engineId (browserEngine 22))
                  # EngineCreate otherModel # es"
    using T h1 h2 h3 h4 h5 h6 h7 h8 h9 by blast
  from h1 h2 h3 h4 h5 h6 h7 h8 h9 c1 c2 show ?thesis by (intro conjI)
qed

section \<open>The end-to-end scenario\<close>

text \<open>
  Claim C1, as stated, fails. The whitespace rule of the built-in list has \<^verbatim>\<open>\s\<close> in its
  class, so the default normalization turns the line feeds of the scenario text into
  spaces as well: one line is left, and \<^verbatim>\<open>_convertToMarkdownLogic\<close> makes one heading of
  it. On the text as it was, with its lines, the result is not the claimed sequence
  either: the last line is short, does not end in punctuation and stands before a blank
  line, so it is a heading, and the paragraph keeps its inner spaces.
\<close>

theorem scenario_claimed_blocks_counterexample:
  "postProcessText defaultConverter invoiceText []
     = js ''TOTAL DUE Please pay within 30 days. Amount: 100 USD'' \<and>
   collectOutputLines (postProcessText defaultConverter invoiceText [])
     = serialize [Heading (js ''TOTAL DUE Please pay within 30 days. Amount: 100 USD'')] \<and>
   collectOutputLines (postProcessText defaultConverter invoiceText [])
     \<noteq> serialize [Heading (js ''TOTAL DUE''), Paragraph (js ''Please pay within 30 days.''),
                   Paragraph (js ''Amount:   100   USD'')] \<and>
   collectOutputLines invoiceText
     \<noteq> serialize [Heading (js ''TOTAL DUE''), Paragraph (js ''Please pay within 30 days.''),
                   Paragraph (js ''Amount:   100   USD'')]"
  by code_simp

text \<open>
  Claim C1, amended: \<^verbatim>\<open>_convertToMarkdownLogic\<close> on the scenario text with its lines
  intact yields the heading \<^verbatim>\<open>TOTAL DUE\<close>, the single tabular line
  \<^verbatim>\<open>Please   pay    within 30 days.\<close> degraded to a paragraph with its inner spaces kept,
  and the heading \<^verbatim>\<open>Amount:   100   USD\<close>; the text returned is these blocks with one
  blank line between them.
\<close>

theorem scenario_blocks:
  "collectOutputLines invoiceText
     = serialize [Heading (js ''TOTAL DUE''), Paragraph (js ''Please   pay    within 30 days.''),
                  Heading (js ''Amount:   100   USD'')] \<and>
   convertToMarkdownLogic invoiceText
     = js ''# TOTAL DUE'' @ [LF, LF] @ js ''Please   pay    within 30 days.'' @ [LF, LF]
         @ js ''# Amount:   100   USD''"
  by code_simp

end
